theory Spec2Isabelle
  imports Complex_Main
begin

section \<open>The SkyBall simulation engine (src/game.ts)\<close>

text \<open>
  The repository holds two copies of the simulation: the engine scaffold
  \<^verbatim>\<open>game.ts\<close> (players in a \<^verbatim>\<open>Map\<close>, balls in an array, the entry points
  \<^verbatim>\<open>tick\<close>, \<^verbatim>\<open>onPlayerJoin\<close>, \<^verbatim>\<open>onPlayerLeave\<close>, \<^verbatim>\<open>onPlayerInput\<close>) and the
  server \<^verbatim>\<open>index.ts\<close> that drives the host engine.  This first part embeds
  \<^verbatim>\<open>game.ts\<close>; the functions of \<^verbatim>\<open>index.ts\<close> that differ follow in a second part.

  JavaScript numbers are modelled as \<^typ>\<open>real\<close>: the arithmetic is the exact one, with
  no rounding, no NaN and no infinity.  \<^verbatim>\<open>Infinity\<close> as the start value of a running
  minimum is \<^const>\<open>None\<close>.  A value that may be \<^verbatim>\<open>undefined\<close> is an \<^typ>\<open>'a option\<close>.
  \<^verbatim>\<open>announce\<close>, \<^verbatim>\<open>broadcastHUD\<close> and \<^verbatim>\<open>endRound\<close> only print (\<^verbatim>\<open>console.log\<close>);
  they change no state and are left out.
\<close>

subsection \<open>Types\<close>

text \<open>\<^verbatim>\<open>type Vec3 = { x:number; y:number; z:number }\<close>; the fields are written
  \<open>vx\<close>, \<open>vy\<close>, \<open>vz\<close>.\<close>

record Vec3 =
  vx :: real
  vy :: real
  vz :: real

type_synonym EntityId = string

record Team =
  tid :: string
  tname :: string
  color :: string
  spawn :: Vec3
  score :: int

record PhysicsCfg =
  maxSpeed :: real
  accel :: real
  lift :: real
  gravity :: real
  drag :: real
  bludgerKnockback :: real
  stunMs :: real

datatype Kind = Quaffle | Bludger | Snitch

record Ball =
  bid :: EntityId
  kind :: Kind
  bpos :: Vec3
  bvel :: Vec3
  owner :: "EntityId option"

record GoalZone =
  center :: Vec3
  radius :: real
  gteamId :: "string option"

record PlayerState =
  pid :: EntityId
  name :: string
  teamId :: string
  pos :: Vec3
  vel :: Vec3
  mounted :: bool
  stamina :: real
  stunnedUntil :: real
  carrying :: "EntityId option"

record Bounds =
  bmin :: Vec3
  bmax :: Vec3

text \<open>The argument of \<^verbatim>\<open>onPlayerInput\<close>.\<close>

record Input =
  move :: Vec3
  ascend :: bool
  descend :: bool
  interact :: bool
  beaterSwing :: bool
  throwDir :: "Vec3 option"

text \<open>The module's mutable globals.  \<^verbatim>\<open>players\<close> is a \<^verbatim>\<open>Map\<close> keyed by the player's
  id: the list holds its values in insertion order, which is the order every
  \<^verbatim>\<open>players.values()\<close> loop visits them in.\<close>

record World =
  players :: "PlayerState list"
  teams :: "Team list"
  goals :: "GoalZone list"
  balls :: "Ball list"
  bounds :: Bounds

subsection \<open>Config\<close>

definition Physics :: PhysicsCfg where
  "Physics = \<lparr>maxSpeed = 22, accel = 45, lift = 30, gravity = 16, drag = 0.08,
     bludgerKnockback = 28, stunMs = 800\<rparr>"

definition SCORE_QUAFFLE :: int where
  "SCORE_QUAFFLE = 10"

definition SCORE_SNITCH :: int where
  "SCORE_SNITCH = 150"

subsection \<open>Math helpers\<close>

definition zero3 :: Vec3 where
  "zero3 = \<lparr>vx = 0, vy = 0, vz = 0\<rparr>"

definition hypot2 :: "real \<Rightarrow> real \<Rightarrow> real" where
  "hypot2 a b = sqrt (a\<^sup>2 + b\<^sup>2)"

definition hypot3 :: "real \<Rightarrow> real \<Rightarrow> real \<Rightarrow> real" where
  "hypot3 a b c = sqrt (a\<^sup>2 + b\<^sup>2 + c\<^sup>2)"

definition sub :: "Vec3 \<Rightarrow> Vec3 \<Rightarrow> Vec3" where
  "sub a b = \<lparr>vx = vx a - vx b, vy = vy a - vy b, vz = vz a - vz b\<rparr>"

definition dist3 :: "Vec3 \<Rightarrow> Vec3 \<Rightarrow> real" where
  "dist3 a b = hypot3 (vx a - vx b) (vy a - vy b) (vz a - vz b)"

definition len :: "Vec3 \<Rightarrow> real" where
  "len a = hypot3 (vx a) (vy a) (vz a)"

text \<open>\<^verbatim>\<open>len(a)||1\<close>: the length, or 1 when the length is 0 (the only falsy value a
  length takes here).\<close>

definition lenOr1 :: "Vec3 \<Rightarrow> real" where
  "lenOr1 a = (if len a = 0 then 1 else len a)"

definition norm3 :: "Vec3 \<Rightarrow> Vec3" where
  "norm3 a = (let L = lenOr1 a in \<lparr>vx = vx a / L, vy = vy a / L, vz = vz a / L\<rparr>)"

text \<open>A division whose result is not a finite number (the divisor is 0: JavaScript
  gives an infinity or NaN) is \<^const>\<open>None\<close>.  \<open>norm_checked\<close> is \<^verbatim>\<open>norm\<close> with every
  division checked in this way.\<close>

definition fdiv :: "real \<Rightarrow> real \<Rightarrow> real option" where
  "fdiv a b = (if b = 0 then None else Some (a / b))"

definition norm_checked :: "Vec3 \<Rightarrow> Vec3 option" where
  "norm_checked a =
     (let L = lenOr1 a in
      case fdiv (vx a) L of
        None \<Rightarrow> None
      | Some qx \<Rightarrow>
          (case fdiv (vy a) L of
             None \<Rightarrow> None
           | Some qy \<Rightarrow>
               (case fdiv (vz a) L of
                  None \<Rightarrow> None
                | Some qz \<Rightarrow> Some \<lparr>vx = qx, vy = qy, vz = qz\<rparr>)))"

definition clampVec :: "Vec3 \<Rightarrow> real \<Rightarrow> Vec3" where
  "clampVec a m =
     (let L = len a in
      if L > m then \<lparr>vx = vx a * m / L, vy = vy a * m / L, vz = vz a * m / L\<rparr> else a)"

text \<open>JavaScript truthiness of an optional string: \<^verbatim>\<open>undefined\<close> and the empty string
  are falsy.\<close>

fun truthy :: "string option \<Rightarrow> bool" where
  "truthy None = False"
| "truthy (Some s) = (s \<noteq> [])"

text \<open>\<^verbatim>\<open>d < bd\<close> where \<^verbatim>\<open>bd\<close> starts as \<^verbatim>\<open>Infinity\<close>.\<close>

fun below :: "real \<Rightarrow> real option \<Rightarrow> bool" where
  "below d None = True"
| "below d (Some m) = (d < m)"

text \<open>Mutating the object that \<^verbatim>\<open>xs.find(P)\<close> returned: the first element that
  satisfies \<open>P\<close> is replaced by its update.\<close>

fun updFirst :: "('a \<Rightarrow> bool) \<Rightarrow> ('a \<Rightarrow> 'a) \<Rightarrow> 'a list \<Rightarrow> 'a list" where
  "updFirst P f [] = []"
| "updFirst P f (x # xs) = (if P x then f x # xs else x # updFirst P f xs)"

text \<open>A loop over a list of objects that updates each visited object in place and a
  shared state beside it.\<close>

fun forEach :: "('a \<Rightarrow> 's \<Rightarrow> 'a \<times> 's) \<Rightarrow> 'a list \<Rightarrow> 's \<Rightarrow> 'a list \<times> 's" where
  "forEach f [] s = ([], s)"
| "forEach f (x # xs) s =
     (case f x s of (x', s') \<Rightarrow>
        (case forEach f xs s' of (xs', s'') \<Rightarrow> (x' # xs', s'')))"

subsection \<open>Arena helpers\<close>

definition midAir :: "Bounds \<Rightarrow> real \<Rightarrow> Vec3" where
  "midAir b h =
     \<lparr>vx = (vx (bmin b) + vx (bmax b)) / 2,
      vy = vy (bmin b) + 60 + h,
      vz = (vz (bmin b) + vz (bmax b)) / 2\<rparr>"

subsection \<open>Utility\<close>

definition teamById :: "Team list \<Rightarrow> string \<Rightarrow> Team option" where
  "teamById ts i = find (\<lambda>t. tid t = i) ts"

text \<open>\<^verbatim>\<open>t.score += n\<close> on the team that \<^verbatim>\<open>teamById\<close> found.\<close>

definition addScore :: "string \<Rightarrow> int \<Rightarrow> Team list \<Rightarrow> Team list" where
  "addScore i n ts = updFirst (\<lambda>t. tid t = i) (\<lambda>t. t\<lparr>score := score t + n\<rparr>) ts"

fun nearestPlayer_loop ::
  "Vec3 \<Rightarrow> PlayerState list \<Rightarrow> PlayerState option \<Rightarrow> real option \<Rightarrow> PlayerState option" where
  "nearestPlayer_loop q [] best bd = best"
| "nearestPlayer_loop q (p # ps) best bd =
     (let d = dist3 q (pos p) in
      if below d bd then nearestPlayer_loop q ps (Some p) (Some d)
      else nearestPlayer_loop q ps best bd)"

definition nearestPlayer :: "PlayerState list \<Rightarrow> Vec3 \<Rightarrow> PlayerState option" where
  "nearestPlayer ps q = nearestPlayer_loop q ps None None"

text \<open>\<^verbatim>\<open>nearestBallOfKind\<close> returns a reference into the array; the model returns the
  index of that ball.\<close>

fun nearestBallOfKind_loop ::
  "Vec3 \<Rightarrow> Kind \<Rightarrow> Ball list \<Rightarrow> nat \<Rightarrow> nat option \<Rightarrow> real option \<Rightarrow> nat option" where
  "nearestBallOfKind_loop q k [] i best bd = best"
| "nearestBallOfKind_loop q k (b # bs) i best bd =
     (if kind b \<noteq> k then nearestBallOfKind_loop q k bs (Suc i) best bd
      else
        (let d = dist3 q (bpos b) in
         if below d bd then nearestBallOfKind_loop q k bs (Suc i) (Some i) (Some d)
         else nearestBallOfKind_loop q k bs (Suc i) best bd))"

definition nearestBallOfKind :: "Ball list \<Rightarrow> Vec3 \<Rightarrow> Kind \<Rightarrow> nat option" where
  "nearestBallOfKind bs q k = nearestBallOfKind_loop q k bs 0 None None"

text \<open>\<^verbatim>\<open>autoAssignTeam\<close>: the counts are built in a \<^verbatim>\<open>Map\<close> from team id to number, first
  0 for every team, then one more for every player's \<^verbatim>\<open>teamId\<close>
  (\<^verbatim>\<open>(counts.get(p.teamId)||0)+1\<close>).\<close>

definition countTeams :: "Team list \<Rightarrow> PlayerState list \<Rightarrow> (string \<rightharpoonup> nat)" where
  "countTeams ts ps =
     fold (\<lambda>p m. m(teamId p \<mapsto> (case m (teamId p) of None \<Rightarrow> 0 | Some c \<Rightarrow> c) + 1)) ps
       (fold (\<lambda>t m. m(tid t \<mapsto> 0)) ts Map.empty)"

text \<open>The selection loop, \<^verbatim>\<open>pick\<close> and \<^verbatim>\<open>best\<close> being its two variables.  A team with no
  entry in \<^verbatim>\<open>counts\<close> would compare as \<^verbatim>\<open>undefined < best\<close>, which is false.\<close>

fun pickLoop ::
  "(string \<rightharpoonup> nat) \<Rightarrow> Team list \<Rightarrow> Team option \<Rightarrow> nat option \<Rightarrow> Team option" where
  "pickLoop counts [] pick best = pick"
| "pickLoop counts (t # ts) pick best =
     (case counts (tid t) of
        None \<Rightarrow> pickLoop counts ts pick best
      | Some c \<Rightarrow>
          (if (case best of None \<Rightarrow> True | Some m \<Rightarrow> c < m)
           then pickLoop counts ts (Some t) (Some c)
           else pickLoop counts ts pick best))"

text \<open>\<^verbatim>\<open>let pick = teams[0]\<close> is \<^verbatim>\<open>undefined\<close> for an empty team list.\<close>

definition autoAssignTeam :: "Team list \<Rightarrow> PlayerState list \<Rightarrow> Team option" where
  "autoAssignTeam ts ps =
     pickLoop (countTeams ts ps) ts (case ts of [] \<Rightarrow> None | t # _ \<Rightarrow> Some t) None"

definition updatePlayerPhysics :: "Bounds \<Rightarrow> real \<Rightarrow> PlayerState \<Rightarrow> PlayerState" where
  "updatePlayerPhysics bnd dt p =
     (let floorY = vy (bmin bnd) + 40 in
      if vy (pos p) < floorY
      then p\<lparr>pos := (pos p)\<lparr>vy := floorY\<rparr>, vel := (vel p)\<lparr>vy := max 0 (vy (vel p))\<rparr>\<rparr>
      else p)"

subsection \<open>Game loop\<close>

definition integrateBall :: "real \<Rightarrow> Ball \<Rightarrow> Ball" where
  "integrateBall dt b =
     (let v0 = bvel b;
          y1 = vy v0 - gravity Physics * dt;
          v = \<lparr>vx = vx v0 * (1 - drag Physics), vy = y1 * (1 - drag Physics),
               vz = vz v0 * (1 - drag Physics)\<rparr>;
          q = bpos b
      in b\<lparr>bvel := v,
            bpos := \<lparr>vx = vx q + vx v * dt, vy = vy q + vy v * dt, vz = vz q + vz v * dt\<rparr>\<rparr>)"

definition bludgerSeek :: "PlayerState list \<Rightarrow> real \<Rightarrow> Ball \<Rightarrow> Ball" where
  "bludgerSeek ps dt b =
     (case nearestPlayer ps (bpos b) of
        None \<Rightarrow> b
      | Some target \<Rightarrow>
          (let dir = norm3 (sub (pos target) (bpos b));
               speed = 12;
               v = bvel b
           in b\<lparr>bvel := \<lparr>vx = vx v + vx dir * speed * dt, vy = vy v + vy dir * speed * dt,
                           vz = vz v + vz dir * speed * dt\<rparr>\<rparr>))"

definition snitchErratic :: "real \<Rightarrow> real \<Rightarrow> Ball \<Rightarrow> Ball" where
  "snitchErratic nowMs dt b =
     (let t = nowMs / 1000;
          v = bvel b
      in b\<lparr>bvel := \<lparr>vx = vx v + sin (t * 5) * 3 * dt, vy = vy v + cos (t * 7) * 4 * dt,
                      vz = vz v + sin (t * 6) * 3 * dt\<rparr>\<rparr>)"

text \<open>The body of the ball loop of \<^verbatim>\<open>tick\<close>.\<close>

definition tickBall :: "PlayerState list \<Rightarrow> real \<Rightarrow> real \<Rightarrow> Ball \<Rightarrow> Ball" where
  "tickBall ps dt nowMs b =
     (if truthy (owner b) then b
      else
        (let b1 = integrateBall dt b;
             b2 = (if kind b1 = Bludger then bludgerSeek ps dt b1 else b1)
         in if kind b2 = Snitch then snitchErratic nowMs dt b2 else b2))"

subsection \<open>Interactions\<close>

text \<open>Goal scoring, the first loop of \<^verbatim>\<open>resolveInteractions\<close>.  \<open>c\<close> is the id of
  \<^verbatim>\<open>carried\<close>, the ball that \<^verbatim>\<open>balls.find(b => b.id === p.carrying)\<close> returned before
  the goals are visited.\<close>

definition resetQuaffle :: "Bounds \<Rightarrow> Ball \<Rightarrow> Ball" where
  "resetQuaffle bnd b = b\<lparr>owner := None, bpos := midAir bnd 8, bvel := zero3\<rparr>"

fun scoreGoals ::
  "Bounds \<Rightarrow> EntityId \<Rightarrow> GoalZone list \<Rightarrow> PlayerState \<Rightarrow> Team list \<times> Ball list \<Rightarrow>
     PlayerState \<times> Team list \<times> Ball list" where
  "scoreGoals bnd c [] p (ts, bs) = (p, ts, bs)"
| "scoreGoals bnd c (g # gs) p (ts, bs) =
     (if dist3 (pos p) (center g) < radius g then
        (case teamById ts (teamId p) of
           None \<Rightarrow> scoreGoals bnd c gs p (ts, bs)
         | Some t \<Rightarrow>
             scoreGoals bnd c gs (p\<lparr>carrying := None\<rparr>)
               (addScore (teamId p) SCORE_QUAFFLE ts,
                updFirst (\<lambda>b. bid b = c) (resetQuaffle bnd) bs))
      else scoreGoals bnd c gs p (ts, bs))"

definition scorePlayer ::
  "Bounds \<Rightarrow> GoalZone list \<Rightarrow> PlayerState \<Rightarrow> Team list \<times> Ball list \<Rightarrow>
     PlayerState \<times> Team list \<times> Ball list" where
  "scorePlayer bnd gs p s =
     (if truthy (carrying p) then
        (case find (\<lambda>b. Some (bid b) = carrying p) (snd s) of
           None \<Rightarrow> (p, s)
         | Some carried \<Rightarrow>
             (if kind carried = Quaffle then scoreGoals bnd (bid carried) gs p s else (p, s)))
      else (p, s))"

text \<open>Bludger knockback, the second loop.  \<open>i\<close> is the index of the bludger \<^verbatim>\<open>b\<close> in
  \<^verbatim>\<open>balls\<close>: the loop reads \<^verbatim>\<open>b.pos\<close> from the live object at every player.\<close>

definition dropBall :: "PlayerState \<Rightarrow> Ball \<Rightarrow> Ball" where
  "dropBall p b =
     b\<lparr>owner := None,
       bvel := \<lparr>vx = vx (vel p), vy = vy (vel p), vz = vz (vel p)\<rparr>,
       bpos := pos p\<rparr>"

definition knock :: "real \<Rightarrow> nat \<Rightarrow> PlayerState \<Rightarrow> Ball list \<Rightarrow> PlayerState \<times> Ball list" where
  "knock nowMs i p bs =
     (let b = bs ! i in
      if dist3 (bpos b) (pos p) < 1.8 then
        (let d = norm3 (sub (pos p) (bpos b));
             v = vel p;
             p1 = p\<lparr>vel := \<lparr>vx = vx v + vx d * bludgerKnockback Physics, vy = vy v + 6,
                            vz = vz v + vz d * bludgerKnockback Physics\<rparr>,
                    stunnedUntil := nowMs + stunMs Physics\<rparr>
         in if truthy (carrying p1)
            then (p1\<lparr>carrying := None\<rparr>,
                  updFirst (\<lambda>x. Some (bid x) = carrying p1) (dropBall p1) bs)
            else (p1, bs))
      else (p, bs))"

fun bludgerLoop ::
  "real \<Rightarrow> nat list \<Rightarrow> PlayerState list \<times> Ball list \<Rightarrow> PlayerState list \<times> Ball list" where
  "bludgerLoop nowMs [] s = s"
| "bludgerLoop nowMs (i # is) (ps, bs) =
     bludgerLoop nowMs is
       (if kind (bs ! i) = Bludger then forEach (knock nowMs i) ps bs else (ps, bs))"

text \<open>Snitch capture, the third loop: it ends at the first player within reach
  (\<^verbatim>\<open>break\<close>), whether or not that player's team was found.\<close>

fun snitchLoop :: "Vec3 \<Rightarrow> PlayerState list \<Rightarrow> Team list \<Rightarrow> Team list" where
  "snitchLoop q [] ts = ts"
| "snitchLoop q (p # ps) ts =
     (if dist3 q (pos p) < 1.5 then
        (case teamById ts (teamId p) of
           None \<Rightarrow> ts
         | Some t \<Rightarrow> addScore (teamId p) SCORE_SNITCH ts)
      else snitchLoop q ps ts)"

definition snitchCapture :: "World \<Rightarrow> World" where
  "snitchCapture w =
     (case find (\<lambda>b. kind b = Snitch) (balls w) of
        None \<Rightarrow> w
      | Some snitch \<Rightarrow> w\<lparr>teams := snitchLoop (bpos snitch) (players w) (teams w)\<rparr>)"

definition goalScoring :: "World \<Rightarrow> World" where
  "goalScoring w =
     (case forEach (scorePlayer (bounds w) (goals w)) (players w) (teams w, balls w) of
        (ps, ts, bs) \<Rightarrow> w\<lparr>players := ps, teams := ts, balls := bs\<rparr>)"

definition bludgerKnock :: "real \<Rightarrow> World \<Rightarrow> World" where
  "bludgerKnock nowMs w =
     (case bludgerLoop nowMs [0..<length (balls w)] (players w, balls w) of
        (ps, bs) \<Rightarrow> w\<lparr>players := ps, balls := bs\<rparr>)"

definition resolveInteractions :: "real \<Rightarrow> World \<Rightarrow> World" where
  "resolveInteractions nowMs w = snitchCapture (bludgerKnock nowMs (goalScoring w))"

definition tick :: "real \<Rightarrow> real \<Rightarrow> World \<Rightarrow> World" where
  "tick dt nowMs w =
     (let w1 = w\<lparr>balls := map (tickBall (players w) dt nowMs) (balls w)\<rparr>;
          w2 = resolveInteractions nowMs w1
      in w2\<lparr>players := map (updatePlayerPhysics (bounds w2) dt) (players w2)\<rparr>)"

subsection \<open>Player and input\<close>

text \<open>\<^verbatim>\<open>players.set(id, v)\<close>: an existing key keeps its place in the iteration order.\<close>

definition playersSet :: "EntityId \<Rightarrow> PlayerState \<Rightarrow> PlayerState list \<Rightarrow> PlayerState list" where
  "playersSet i v ps =
     (if find (\<lambda>p. pid p = i) ps = None then ps @ [v] else updFirst (\<lambda>p. pid p = i) (\<lambda>_. v) ps)"

text \<open>With no team configured, \<^verbatim>\<open>autoAssignTeam\<close> returns \<^verbatim>\<open>undefined\<close> and
  \<^verbatim>\<open>team.spawn\<close> throws: the result is \<^const>\<open>None\<close>.\<close>

definition onPlayerJoin :: "EntityId \<Rightarrow> string \<Rightarrow> World \<Rightarrow> World option" where
  "onPlayerJoin i nm w =
     (case autoAssignTeam (teams w) (players w) of
        None \<Rightarrow> None
      | Some team \<Rightarrow>
          Some (w\<lparr>players :=
            playersSet i
              \<lparr>pid = i, name = nm, teamId = tid team, pos = spawn team, vel = zero3,
               mounted = True, stamina = 1, stunnedUntil = 0, carrying = None\<rparr>
              (players w)\<rparr>))"

definition onPlayerLeave :: "EntityId \<Rightarrow> World \<Rightarrow> World" where
  "onPlayerLeave i w = w\<lparr>players := filter (\<lambda>p. pid p \<noteq> i) (players w)\<rparr>"

text \<open>The flight part of \<^verbatim>\<open>onPlayerInput\<close>: forces, drag and clamp, gravity,
  integration, one assignment after the other.\<close>

definition flight :: "Input \<Rightarrow> real \<Rightarrow> PlayerState \<Rightarrow> PlayerState" where
  "flight inp dt p =
     (let mv = clampVec (move inp) 1;
          x1 = vx (vel p) + vx mv * accel Physics * dt;
          z1 = vz (vel p) + vz mv * accel Physics * dt;
          y1 = (if ascend inp then vy (vel p) + lift Physics * dt else vy (vel p));
          y2 = (if descend inp then y1 - lift Physics * dt else y1);
          x2 = x1 * (1 - drag Physics);
          z2 = z1 * (1 - drag Physics);
          sp = hypot2 x2 z2;
          s = maxSpeed Physics / sp;
          x3 = (if sp > maxSpeed Physics then x2 * s else x2);
          z3 = (if sp > maxSpeed Physics then z2 * s else z2);
          y3 = y2 - gravity Physics * dt;
          q = pos p
      in p\<lparr>vel := \<lparr>vx = x3, vy = y3, vz = z3\<rparr>,
            pos := \<lparr>vx = vx q + x3 * dt, vy = vy q + y3 * dt, vz = vz q + z3 * dt\<rparr>\<rparr>)"

text \<open>The predicate of the pickup's \<^verbatim>\<open>balls.find\<close>.\<close>

definition pickable :: "PlayerState \<Rightarrow> Ball \<Rightarrow> bool" where
  "pickable p b \<longleftrightarrow>
     \<not> truthy (owner b) \<and> dist3 (bpos b) (pos p) < 2.0 \<and> (kind b = Quaffle \<or> kind b = Snitch)"

definition throwBall :: "Input \<Rightarrow> PlayerState \<Rightarrow> Ball \<Rightarrow> Ball" where
  "throwBall inp p b =
     (let dir = norm3 (case throwDir inp of
                         None \<Rightarrow> \<lparr>vx = vx (vel p), vy = 0.2, vz = vz (vel p)\<rparr>
                       | Some t \<Rightarrow> t);
          power = 26
      in b\<lparr>owner := None,
            bvel := \<lparr>vx = vx dir * power, vy = vy dir * power, vz = vz dir * power\<rparr>,
            bpos := pos p\<rparr>)"

definition interactStep :: "Input \<Rightarrow> PlayerState \<Rightarrow> Ball list \<Rightarrow> PlayerState \<times> Ball list" where
  "interactStep inp p bs =
     (if \<not> truthy (carrying p) then
        (case find (pickable p) bs of
           None \<Rightarrow> (p, bs)
         | Some nearby \<Rightarrow>
             (p\<lparr>carrying := Some (bid nearby)\<rparr>,
              updFirst (pickable p) (\<lambda>b. b\<lparr>owner := Some (pid p)\<rparr>) bs))
      else
        (p\<lparr>carrying := None\<rparr>,
         updFirst (\<lambda>b. Some (bid b) = carrying p) (throwBall inp p) bs))"

definition swing :: "PlayerState \<Rightarrow> Ball list \<Rightarrow> Ball list" where
  "swing p bs =
     (case nearestBallOfKind bs (pos p) Bludger of
        None \<Rightarrow> bs
      | Some i \<Rightarrow>
          (let bl = bs ! i in
           if dist3 (bpos bl) (pos p) < 2.4 then
             (let dir = norm3 (sub (bpos bl) (pos p));
                  power = 32;
                  v = bvel bl
              in bs[i := bl\<lparr>bvel := \<lparr>vx = vx v + vx dir * power, vy = vy v + 6,
                                      vz = vz v + vz dir * power\<rparr>\<rparr>])
           else bs))"

definition onPlayerInput :: "EntityId \<Rightarrow> Input \<Rightarrow> real \<Rightarrow> real \<Rightarrow> World \<Rightarrow> World" where
  "onPlayerInput i inp dt nowMs w =
     (case find (\<lambda>p. pid p = i) (players w) of
        None \<Rightarrow> w
      | Some p \<Rightarrow>
          (if nowMs < stunnedUntil p then w
           else
             (let p1 = flight inp dt p;
                  (p2, bs2) = (if interact inp then interactStep inp p1 (balls w)
                               else (p1, balls w));
                  bs3 = (if beaterSwing inp then swing p2 bs2 else bs2)
              in w\<lparr>players := updFirst (\<lambda>q. pid q = i) (\<lambda>_. p2) (players w),
                    balls := bs3\<rparr>)))"

section \<open>The game server (src/index.ts)\<close>

text \<open>
  \<^verbatim>\<open>index.ts\<close> keeps the same rules on top of the host engine.  A player's state object
  is stored in the \<^verbatim>\<open>Map\<close> \<^verbatim>\<open>quidditchPlayers\<close> under the key \<^verbatim>\<open>player.id\<close>; a ball is a
  \<^verbatim>\<open>BallEntity\<close> object in the array \<^verbatim>\<open>balls\<close>, which only ever grows.  The two
  object references of the source become a key and an index: \<^verbatim>\<open>carryingBall\<close> is the index
  of the ball in \<^verbatim>\<open>balls\<close>, \<^verbatim>\<open>owner\<close> is the key of the owning player's state.  What the
  host engine holds for an entity is part of the state here: its position, its
  rotation, and the impulses handed to \<^verbatim>\<open>applyImpulse\<close>.  \<^verbatim>\<open>Date.now()\<close> is a parameter.
\<close>

subsection \<open>Types\<close>

record QuidditchPlayerState =
  qid :: string
  position :: Vec3
  rotation :: Vec3
  impulses :: "Vec3 list"
  qteamId :: string
  qstamina :: real
  qstunnedUntil :: real
  carryingBall :: "nat option"

record BallEntity =
  ekind :: Kind
  eposition :: Vec3
  velocity :: Vec3
  eowner :: "string option"

record Server =
  quidditchPlayers :: "QuidditchPlayerState list"
  ballEntities :: "BallEntity list"

subsection \<open>Math helpers\<close>

definition subtract :: "Vec3 \<Rightarrow> Vec3 \<Rightarrow> Vec3" where
  "subtract a b = \<lparr>vx = vx a - vx b, vy = vy a - vy b, vz = vz a - vz b\<rparr>"

definition distance :: "Vec3 \<Rightarrow> Vec3 \<Rightarrow> real" where
  "distance a b = hypot3 (vx a - vx b) (vy a - vy b) (vz a - vz b)"

definition length3 :: "Vec3 \<Rightarrow> real" where
  "length3 v = hypot3 (vx v) (vy v) (vz v)"

definition normalize :: "Vec3 \<Rightarrow> Vec3" where
  "normalize v =
     (let len = (if length3 v = 0 then 1 else length3 v)
      in \<lparr>vx = vx v / len, vy = vy v / len, vz = vz v / len\<rparr>)"

fun findNearestPlayer_loop ::
  "Vec3 \<Rightarrow> QuidditchPlayerState list \<Rightarrow> QuidditchPlayerState option \<Rightarrow> real option \<Rightarrow>
     QuidditchPlayerState option" where
  "findNearestPlayer_loop q [] nearest minDist = nearest"
| "findNearestPlayer_loop q (p # ps) nearest minDist =
     (let d = distance q (position p) in
      if below d minDist then findNearestPlayer_loop q ps (Some p) (Some d)
      else findNearestPlayer_loop q ps nearest minDist)"

definition findNearestPlayer :: "QuidditchPlayerState list \<Rightarrow> Vec3 \<Rightarrow> QuidditchPlayerState option" where
  "findNearestPlayer ps q = findNearestPlayer_loop q ps None None"

text \<open>\<^verbatim>\<open>xs.find(P)\<close> as the index of the object found.\<close>

fun findIndex :: "('a \<Rightarrow> bool) \<Rightarrow> 'a list \<Rightarrow> nat option" where
  "findIndex P [] = None"
| "findIndex P (x # xs) = (if P x then Some 0 else map_option Suc (findIndex P xs))"

subsection \<open>Ball entities\<close>

text \<open>\<^verbatim>\<open>BallEntity.updatePhysics\<close>.  The position of the owner is read from the owner's
  entity; a ball whose owner's state is no longer in the map keeps its fields.\<close>

definition updatePhysics :: "QuidditchPlayerState list \<Rightarrow> real \<Rightarrow> BallEntity \<Rightarrow> BallEntity" where
  "updatePhysics ps dt b =
     (case eowner b of
        Some ow \<Rightarrow>
          (case find (\<lambda>p. qid p = ow) ps of
             None \<Rightarrow> b
           | Some p \<Rightarrow>
               (let ownerPos = position p
                in b\<lparr>eposition := \<lparr>vx = vx ownerPos, vy = vy ownerPos + 2, vz = vz ownerPos\<rparr>\<rparr>))
      | None \<Rightarrow>
          (let v0 = velocity b;
               y1 = vy v0 - gravity Physics * dt;
               v = \<lparr>vx = vx v0 * (1 - drag Physics), vy = y1 * (1 - drag Physics),
                    vz = vz v0 * (1 - drag Physics)\<rparr>;
               q = eposition b;
               newPos = \<lparr>vx = vx q + vx v * dt, vy = vy q + vy v * dt, vz = vz q + vz v * dt\<rparr>
           in if vy newPos < 51
              then b\<lparr>velocity := v\<lparr>vy := \<bar>vy v\<bar> * 0.5\<rparr>, eposition := newPos\<lparr>vy := 51\<rparr>\<rparr>
              else b\<lparr>velocity := v, eposition := newPos\<rparr>))"

text \<open>The overrides of \<^verbatim>\<open>BludgerEntity\<close> and \<^verbatim>\<open>SnitchEntity\<close>; \<open>t\<close> is the snitch's
  \<^verbatim>\<open>(Date.now() - this.startTime) / 1000\<close>.\<close>

definition updateBall :: "QuidditchPlayerState list \<Rightarrow> real \<Rightarrow> real \<Rightarrow> BallEntity \<Rightarrow> BallEntity" where
  "updateBall ps dt t b =
     (let b1 = updatePhysics ps dt b in
      if ekind b = Quaffle \<or> eowner b1 \<noteq> None then b1
      else if ekind b = Bludger then
        (case findNearestPlayer ps (eposition b1) of
           None \<Rightarrow> b1
         | Some target \<Rightarrow>
             (let dir = normalize (subtract (position target) (eposition b1));
                  speed = 12;
                  v = velocity b1
              in b1\<lparr>velocity := \<lparr>vx = vx v + vx dir * speed * dt, vy = vy v + vy dir * speed * dt,
                                  vz = vz v + vz dir * speed * dt\<rparr>\<rparr>))
      else
        (let v = velocity b1
         in b1\<lparr>velocity := \<lparr>vx = vx v + sin (t * 5) * 3 * dt, vy = vy v + cos (t * 7) * 4 * dt,
                             vz = vz v + sin (t * 6) * 3 * dt\<rparr>\<rparr>))"

subsection \<open>Game logic\<close>

text \<open>\<^verbatim>\<open>checkBludgerHits\<close>: the body of the player loop for the bludger at index \<open>i\<close>,
  and the two loops.\<close>

definition hit ::
  "real \<Rightarrow> nat \<Rightarrow> QuidditchPlayerState \<Rightarrow> BallEntity list \<Rightarrow>
     QuidditchPlayerState \<times> BallEntity list" where
  "hit nowMs i p bs =
     (if nowMs < qstunnedUntil p then (p, bs)
      else
        (let playerPos = position p;
             ball = bs ! i
         in if distance (eposition ball) playerPos < 2.0 then
              (let dir = normalize (subtract playerPos (eposition ball));
                   p1 = p\<lparr>impulses := impulses p @
                            [\<lparr>vx = vx dir * bludgerKnockback Physics, vy = 6,
                              vz = vz dir * bludgerKnockback Physics\<rparr>],
                          qstunnedUntil := nowMs + stunMs Physics\<rparr>
               in case carryingBall p1 of
                    None \<Rightarrow> (p1, bs)
                  | Some k \<Rightarrow>
                      (p1\<lparr>carryingBall := None\<rparr>,
                       bs[k := (bs ! k)\<lparr>eowner := None,
                                        velocity := \<lparr>vx = vx dir * 10, vy = 4, vz = vz dir * 10\<rparr>\<rparr>]))
            else (p, bs)))"

fun checkBludgerHits_loop ::
  "real \<Rightarrow> nat list \<Rightarrow> QuidditchPlayerState list \<times> BallEntity list \<Rightarrow>
     QuidditchPlayerState list \<times> BallEntity list" where
  "checkBludgerHits_loop nowMs [] s = s"
| "checkBludgerHits_loop nowMs (i # is) (ps, bs) =
     checkBludgerHits_loop nowMs is
       (if ekind (bs ! i) \<noteq> Bludger \<or> eowner (bs ! i) \<noteq> None then (ps, bs)
        else forEach (hit nowMs i) ps bs)"

definition checkBludgerHits :: "real \<Rightarrow> Server \<Rightarrow> Server" where
  "checkBludgerHits nowMs s =
     (case checkBludgerHits_loop nowMs [0..<length (ballEntities s)]
             (quidditchPlayers s, ballEntities s) of
        (ps, bs) \<Rightarrow> s\<lparr>quidditchPlayers := ps, ballEntities := bs\<rparr>)"

text \<open>\<^verbatim>\<open>handlePlayerInteract\<close>.\<close>

definition pickable_i :: "QuidditchPlayerState \<Rightarrow> BallEntity \<Rightarrow> bool" where
  "pickable_i p b \<longleftrightarrow>
     eowner b = None \<and> (ekind b = Quaffle \<or> ekind b = Snitch) \<and>
     distance (eposition b) (position p) < 3.0"

definition handlePlayerInteract :: "string \<Rightarrow> real \<Rightarrow> Server \<Rightarrow> Server" where
  "handlePlayerInteract playerId nowMs s =
     (case find (\<lambda>p. qid p = playerId) (quidditchPlayers s) of
        None \<Rightarrow> s
      | Some p \<Rightarrow>
          (if nowMs < qstunnedUntil p then s
           else
             (case carryingBall p of
                None \<Rightarrow>
                  (case findIndex (pickable_i p) (ballEntities s) of
                     None \<Rightarrow> s
                   | Some k \<Rightarrow>
                       s\<lparr>quidditchPlayers :=
                           updFirst (\<lambda>q. qid q = playerId) (\<lambda>_. p\<lparr>carryingBall := Some k\<rparr>)
                             (quidditchPlayers s),
                         ballEntities :=
                           (ballEntities s)[k := (ballEntities s ! k)\<lparr>eowner := Some playerId\<rparr>]\<rparr>)
              | Some k \<Rightarrow>
                  (let throwPower = 26;
                       facing = rotation p;
                       dir = \<lparr>vx = sin (vy facing) * cos (vx facing),
                              vy = sin (vx facing) + 0.2,
                              vz = cos (vy facing) * cos (vx facing)\<rparr>
                   in s\<lparr>quidditchPlayers :=
                          updFirst (\<lambda>q. qid q = playerId) (\<lambda>_. p\<lparr>carryingBall := None\<rparr>)
                            (quidditchPlayers s),
                        ballEntities :=
                          (ballEntities s)[k := (ballEntities s ! k)
                             \<lparr>eowner := None,
                              velocity := \<lparr>vx = vx dir * throwPower, vy = vy dir * throwPower,
                                           vz = vz dir * throwPower\<rparr>\<rparr>]\<rparr>))))"

text \<open>The handler of \<^verbatim>\<open>PlayerEvent.LEFT_WORLD\<close>.\<close>

definition onLeftWorld :: "string \<Rightarrow> Server \<Rightarrow> Server" where
  "onLeftWorld playerId s =
     (case find (\<lambda>p. qid p = playerId) (quidditchPlayers s) of
        None \<Rightarrow> s
      | Some p \<Rightarrow>
          s\<lparr>ballEntities :=
              (case carryingBall p of
                 None \<Rightarrow> ballEntities s
               | Some k \<Rightarrow> (ballEntities s)[k := (ballEntities s ! k)\<lparr>eowner := None\<rparr>]),
            quidditchPlayers := filter (\<lambda>q. qid q \<noteq> playerId) (quidditchPlayers s)\<rparr>)"

text \<open>The flight controls that \<^verbatim>\<open>index.ts\<close> adds to the host engine's controller: the
  handler of \<^verbatim>\<open>BaseEntityControllerEvent.TICK_WITH_PLAYER_INPUT\<close>, registered when the player
  joins, and the \<^verbatim>\<open>/rocket\<close> command.  The handler is a closure over the player's entity;
  \<open>playerId\<close> says whose entity it is and \<open>mass\<close> is \<^verbatim>\<open>playerEntity.mass\<close>.  Of the
  engine's input only the two keys the handler reads are kept.\<close>

record FlyingSpeed =
  vertical :: real
  horizontal :: real
  turbo :: real

definition FLYING_SPEED :: FlyingSpeed where
  "FLYING_SPEED = \<lparr>vertical = 15, horizontal = 12, turbo = 22\<rparr>"

record ControllerInput =
  space :: bool
  ctrl :: bool

definition applyImpulse :: "Vec3 \<Rightarrow> QuidditchPlayerState \<Rightarrow> QuidditchPlayerState" where
  "applyImpulse impulse p = p\<lparr>impulses := impulses p @ [impulse]\<rparr>"

definition onTickWithPlayerInput :: "string \<Rightarrow> real \<Rightarrow> ControllerInput \<Rightarrow> Server \<Rightarrow> Server" where
  "onTickWithPlayerInput playerId mass input s =
     (if space input then
        (let upwardForce = vertical FLYING_SPEED * mass
         in s\<lparr>quidditchPlayers :=
                updFirst (\<lambda>q. qid q = playerId)
                  (applyImpulse \<lparr>vx = 0, vy = upwardForce, vz = 0\<rparr>) (quidditchPlayers s)\<rparr>)
      else if ctrl input then
        (let downwardForce = - vertical FLYING_SPEED * mass
         in s\<lparr>quidditchPlayers :=
                updFirst (\<lambda>q. qid q = playerId)
                  (applyImpulse \<lparr>vx = 0, vy = downwardForce, vz = 0\<rparr>) (quidditchPlayers s)\<rparr>)
      else s)"

definition rocket :: "string \<Rightarrow> Server \<Rightarrow> Server" where
  "rocket playerId s =
     (case find (\<lambda>p. qid p = playerId) (quidditchPlayers s) of
        None \<Rightarrow> s
      | Some p \<Rightarrow>
          s\<lparr>quidditchPlayers :=
              updFirst (\<lambda>q. qid q = playerId) (applyImpulse \<lparr>vx = 0, vy = 25, vz = 0\<rparr>)
                (quidditchPlayers s)\<rparr>)"

section \<open>Notions used in the statements\<close>

text \<open>What the resolver may do to a ball: nothing, or leave it without an owner.\<close>

definition released :: "Ball \<Rightarrow> Ball \<Rightarrow> bool" where
  "released b b' \<longleftrightarrow> b' = b \<or> owner b' = None"

text \<open>For the goal-scoring step: the number of goal zones a player is inside, whether the
  player carries a quaffle (the two tests the loop makes before it visits the goals), and
  the number of awards the player's visit earns.\<close>

definition zonesInRange :: "GoalZone list \<Rightarrow> PlayerState \<Rightarrow> nat" where
  "zonesInRange gs p = length (filter (\<lambda>g. dist3 (pos p) (center g) < radius g) gs)"

definition carriesQuaffle :: "Ball list \<Rightarrow> PlayerState \<Rightarrow> bool" where
  "carriesQuaffle bs p \<longleftrightarrow>
     truthy (carrying p) \<and>
     (case find (\<lambda>b. Some (bid b) = carrying p) bs of None \<Rightarrow> False | Some b \<Rightarrow> kind b = Quaffle)"

definition credit :: "Ball list \<Rightarrow> GoalZone list \<Rightarrow> PlayerState \<Rightarrow> int" where
  "credit bs gs p = (if carriesQuaffle bs p then int (zonesInRange gs p) else 0)"

definition resetOrSame :: "Bounds \<Rightarrow> Ball \<Rightarrow> Ball \<Rightarrow> bool" where
  "resetOrSame bnd b b' \<longleftrightarrow> b' = b \<or> b' = resetQuaffle bnd b"

text \<open>Across the goal-scoring loop the team ids stay and every ball is as it was or
  has been reset.\<close>

definition sameBalls :: "Bounds \<Rightarrow> Team list \<times> Ball list \<Rightarrow> Team list \<times> Ball list \<Rightarrow> bool" where
  "sameBalls bnd s s' \<longleftrightarrow>
     map tid (fst s') = map tid (fst s) \<and> list_all2 (resetOrSame bnd) (snd s) (snd s')"

text \<open>For team assignment: the number of players of a team, a run of consecutive
  \<^verbatim>\<open>onPlayerJoin\<close> calls (it stops at the first call that throws), and the state of
  the counts after \<open>n\<close> joins: the counts of the configured teams sum to at most \<open>n\<close>
  and each is at most \<open>n\<close> divided by the number of teams, rounded up.\<close>

definition teamCount :: "string \<Rightarrow> PlayerState list \<Rightarrow> nat" where
  "teamCount i ps = length (filter (\<lambda>p. teamId p = i) ps)"

fun joinAll :: "(EntityId \<times> string) list \<Rightarrow> World \<Rightarrow> World option" where
  "joinAll [] w = Some w"
| "joinAll ((i, nm) # js) w =
     (case onPlayerJoin i nm w of None \<Rightarrow> None | Some w' \<Rightarrow> joinAll js w')"

definition fairAfter :: "nat \<Rightarrow> World \<Rightarrow> bool" where
  "fairAfter n w \<longleftrightarrow>
     sum_list (map (\<lambda>t. teamCount (tid t) (players w)) (teams w)) \<le> n \<and>
     (\<forall>t\<in>set (teams w). length (teams w) * teamCount (tid t) (players w) < n + length (teams w))"

section \<open>Example worlds\<close>

text \<open>Concrete states on which the theorems below are instantiated.\<close>

definition exTeams :: "Team list" where
  "exTeams =
     [\<lparr>tid = ''gry'', tname = ''Gryffindor'', color = ''#B31B1B'',
        spawn = \<lparr>vx = -35, vy = 60, vz = 0\<rparr>, score = 0\<rparr>,
      \<lparr>tid = ''sly'', tname = ''Slytherin'', color = ''#2E7D32'',
        spawn = \<lparr>vx = 35, vy = 60, vz = 0\<rparr>, score = 0\<rparr>]"

definition exBounds :: Bounds where
  "exBounds = \<lparr>bmin = \<lparr>vx = -50, vy = 0, vz = -50\<rparr>, bmax = \<lparr>vx = 50, vy = 100, vz = 50\<rparr>\<rparr>"

definition exPlayer :: "Vec3 \<Rightarrow> real \<Rightarrow> EntityId option \<Rightarrow> PlayerState" where
  "exPlayer q su c =
     \<lparr>pid = ''p1'', name = ''Ann'', teamId = ''gry'', pos = q, vel = zero3, mounted = True,
      stamina = 1, stunnedUntil = su, carrying = c\<rparr>"

definition exBall :: "EntityId \<Rightarrow> Kind \<Rightarrow> Vec3 \<Rightarrow> EntityId option \<Rightarrow> Ball" where
  "exBall i k q ow = \<lparr>bid = i, kind = k, bpos = q, bvel = zero3, owner = ow\<rparr>"

definition exWorld :: "PlayerState list \<Rightarrow> Ball list \<Rightarrow> World" where
  "exWorld ps bs = \<lparr>players = ps, teams = exTeams, goals = [], balls = bs, bounds = exBounds\<rparr>"

definition idle :: Input where
  "idle = \<lparr>move = zero3, ascend = False, descend = False, interact = False,
            beaterSwing = False, throwDir = None\<rparr>"

text \<open>A player who is at the origin after half a second of idle flight, a quaffle at
  distance 1.5 from the origin and a snitch at distance 0.5.\<close>

definition nearP :: PlayerState where
  "nearP = exPlayer \<lparr>vx = 0, vy = 4, vz = 0\<rparr> 0 None"

definition farQuaffle :: Ball where
  "farQuaffle = exBall ''q'' Quaffle \<lparr>vx = 3/2, vy = 0, vz = 0\<rparr> None"

definition nearSnitch :: Ball where
  "nearSnitch = exBall ''s'' Snitch \<lparr>vx = 1/2, vy = 0, vz = 0\<rparr> None"

text \<open>A player hovering above the floor who carries the snitch; the same player
  carrying the quaffle, once with the ball's position at the player and once five units
  away; and a player with a bludger at distance 1.\<close>

definition hover :: Vec3 where
  "hover = \<lparr>vx = 0, vy = 60, vz = 0\<rparr>"

definition snitchWorld :: World where
  "snitchWorld = exWorld [exPlayer hover 0 (Some ''s'')] [exBall ''s'' Snitch hover (Some ''p1'')]"

definition carrierWorld :: World where
  "carrierWorld = exWorld [exPlayer hover 0 (Some ''q'')] [exBall ''q'' Quaffle hover (Some ''p1'')]"

definition carrierWorld2 :: World where
  "carrierWorld2 =
     exWorld [exPlayer hover 0 (Some ''q'')]
       [exBall ''q'' Quaffle \<lparr>vx = 5, vy = 60, vz = 0\<rparr> (Some ''p1'')]"

definition bludgerWorld :: "PlayerState \<Rightarrow> World" where
  "bludgerWorld p = exWorld [p] [exBall ''b1'' Bludger \<lparr>vx = 1, vy = 60, vz = 0\<rparr> None]"

text \<open>A carrier at distance 1 from two hoops that are 2 apart, each of radius 2.2.\<close>

definition scorer :: PlayerState where
  "scorer = exPlayer \<lparr>vx = 1, vy = 60, vz = 0\<rparr> 0 (Some ''q'')"

definition heldQuaffle :: Ball where
  "heldQuaffle = exBall ''q'' Quaffle \<lparr>vx = 1, vy = 60, vz = 0\<rparr> (Some ''p1'')"

definition hoop :: "real \<Rightarrow> GoalZone" where
  "hoop a = \<lparr>center = \<lparr>vx = a, vy = 60, vz = 0\<rparr>, radius = 2.2, gteamId = None\<rparr>"

definition goalWorld :: "GoalZone list \<Rightarrow> World" where
  "goalWorld gs = (exWorld [scorer] [heldQuaffle])\<lparr>goals := gs\<rparr>"

text \<open>Three players join an empty world with two teams.\<close>

definition threeJoins :: "(EntityId \<times> string) list" where
  "threeJoins = [(''a'', ''Ann''), (''b'', ''Bob''), (''c'', ''Cy'')]"

text \<open>The same situations in the game server.\<close>

definition exQPlayer :: "Vec3 \<Rightarrow> real \<Rightarrow> nat option \<Rightarrow> QuidditchPlayerState" where
  "exQPlayer q su c =
     \<lparr>qid = ''p1'', position = q, rotation = zero3, impulses = [], qteamId = ''gry'',
      qstamina = 1, qstunnedUntil = su, carryingBall = c\<rparr>"

definition exBallEntity :: "Kind \<Rightarrow> Vec3 \<Rightarrow> string option \<Rightarrow> BallEntity" where
  "exBallEntity k q ow = \<lparr>ekind = k, eposition = q, velocity = zero3, eowner = ow\<rparr>"

definition exServer :: "QuidditchPlayerState list \<Rightarrow> BallEntity list \<Rightarrow> Server" where
  "exServer ps bs = \<lparr>quidditchPlayers = ps, ballEntities = bs\<rparr>"

definition farQuaffle_i :: BallEntity where
  "farQuaffle_i = exBallEntity Quaffle \<lparr>vx = 5/2, vy = 0, vz = 0\<rparr> None"

definition nearSnitch_i :: BallEntity where
  "nearSnitch_i = exBallEntity Snitch \<lparr>vx = 1/2, vy = 0, vz = 0\<rparr> None"

lemmas ex_defs = exTeams_def exBounds_def exPlayer_def exBall_def exWorld_def idle_def zero3_def

section \<open>Auxiliary facts\<close>

subsection \<open>Lengths and distances\<close>

lemma hypot3_nonneg: "0 \<le> hypot3 a b c"
  by (simp add: hypot3_def)

lemma hypot3_eq_0_iff: "hypot3 a b c = 0 \<longleftrightarrow> a = 0 \<and> b = 0 \<and> c = 0"
  by (auto simp: hypot3_def sum_power2_eq_zero_iff add_nonneg_eq_0_iff)

lemma hypot3_less_iff: "hypot3 a b c < r \<longleftrightarrow> 0 < r \<and> a\<^sup>2 + b\<^sup>2 + c\<^sup>2 < r\<^sup>2"
proof -
  have s: "0 \<le> a\<^sup>2 + b\<^sup>2 + c\<^sup>2" by simp
  show ?thesis
  proof (cases "0 < r")
    case True
    then have "sqrt (a\<^sup>2 + b\<^sup>2 + c\<^sup>2) < r \<longleftrightarrow> a\<^sup>2 + b\<^sup>2 + c\<^sup>2 < r\<^sup>2"
      using s by (metis less_eq_real_def real_sqrt_less_iff real_sqrt_abs abs_of_pos real_sqrt_unique)
    with True show ?thesis by (simp add: hypot3_def)
  next
    case False
    then have "\<not> hypot3 a b c < r" using hypot3_nonneg [of a b c] by linarith
    with False show ?thesis by simp
  qed
qed

lemma lenOr1_pos: "0 < lenOr1 a"
  using hypot3_nonneg [of "vx a" "vy a" "vz a"] by (auto simp: lenOr1_def len_def)

lemma norm_checked_eq: "norm_checked a = Some (norm3 a)"
  using lenOr1_pos [of a] by (simp add: norm_checked_def norm3_def fdiv_def Let_def)

lemma norm3_zero: "norm3 zero3 = zero3"
  by (simp add: norm3_def zero3_def lenOr1_def len_def hypot3_def)

lemma norm3_sub_self: "norm3 (sub q q) = zero3"
  by (simp add: norm3_def sub_def zero3_def lenOr1_def len_def hypot3_def)

lemma len_norm3: "len (norm3 a) = (if len a = 0 then 0 else 1)"
proof (cases "len a = 0")
  case True
  then have "vx a = 0" "vy a = 0" "vz a = 0" by (simp_all add: len_def hypot3_eq_0_iff)
  then show ?thesis using True by (simp add: norm3_def lenOr1_def len_def hypot3_def)
next
  case False
  define L where "L = len a"
  have Lpos: "0 < L"
    using False hypot3_nonneg [of "vx a" "vy a" "vz a"] by (simp add: L_def len_def)
  have L2: "L\<^sup>2 = (vx a)\<^sup>2 + (vy a)\<^sup>2 + (vz a)\<^sup>2"
    by (simp add: L_def len_def hypot3_def)
  have "(vx a / L)\<^sup>2 + (vy a / L)\<^sup>2 + (vz a / L)\<^sup>2 =
          ((vx a)\<^sup>2 + (vy a)\<^sup>2 + (vz a)\<^sup>2) / L\<^sup>2"
    by (simp add: power_divide add_divide_distrib)
  also have "\<dots> = 1" using Lpos by (simp add: L2 [symmetric])
  finally have "len (norm3 a) = 1"
    using False
    by (simp add: norm3_def lenOr1_def len_def [of "\<lparr>vx = _, vy = _, vz = _\<rparr>"] hypot3_def
        L_def Let_def)
  with False show ?thesis by simp
qed

subsection \<open>Lists of objects\<close>

lemma find_first:
  "\<forall>x\<in>set pre. \<not> P x \<Longrightarrow> P b \<Longrightarrow> find P (pre @ b # post) = Some b"
  by (induction pre) auto

lemma updFirst_first:
  "\<forall>x\<in>set pre. \<not> P x \<Longrightarrow> P b \<Longrightarrow> updFirst P f (pre @ b # post) = pre @ f b # post"
  by (induction pre) auto

lemma find_updFirst_const:
  "find P xs = Some x \<Longrightarrow> P y \<Longrightarrow> find P (updFirst P (\<lambda>_. y) xs) = Some y"
  by (induction xs) (auto split: if_splits)

lemma find_pid: "find (\<lambda>q. pid q = i) ps = Some p \<Longrightarrow> pid p = i"
  by (induction ps) (auto split: if_splits)

lemma map_update_same: "(map f xs)[i := f (xs ! i)] = map f xs"
proof (cases "i < length xs")
  case True
  then have "(map f xs) ! i = f (xs ! i)" by simp
  then show ?thesis by (metis list_update_id)
next
  case False
  then have "length (map f xs) \<le> i" by simp
  then show ?thesis by (rule list_update_beyond)
qed

subsection \<open>The input processor\<close>

lemma pid_flight [simp]: "pid (flight inp dt p) = pid p"
  by (simp add: flight_def Let_def)

lemma carrying_flight [simp]: "carrying (flight inp dt p) = carrying p"
  by (simp add: flight_def Let_def)

lemma vel_interactStep [simp]: "vel (fst (interactStep inp p bs)) = vel p"
  by (simp add: interactStep_def split: option.splits)

lemma pid_interactStep [simp]: "pid (fst (interactStep inp p bs)) = pid p"
  by (simp add: interactStep_def split: option.splits)


lemma onPlayerInput_player:
  assumes "find (\<lambda>q. pid q = i) (players w) = Some p" and "\<not> nowMs < stunnedUntil p"
  shows "find (\<lambda>q. pid q = i) (players (onPlayerInput i inp dt nowMs w)) =
           Some (if interact inp then fst (interactStep inp (flight inp dt p) (balls w))
                 else flight inp dt p)"
proof -
  have "pid p = i" using assms(1) by (rule find_pid)
  then show ?thesis using assms
    by (auto simp: onPlayerInput_def Let_def split: prod.splits intro!: find_updFirst_const)
       (metis fst_conv pid_flight pid_interactStep)
qed

lemma swing_owner: "map owner (swing p bs) = map owner bs"
  by (auto simp: swing_def Let_def map_update map_update_same split: option.splits)

lemma swing_bid: "map bid (swing p bs) = map bid bs"
  by (auto simp: swing_def Let_def map_update map_update_same split: option.splits)

lemma flight_nearP:
  "flight (idle\<lparr>interact := True\<rparr>) (1/2) nearP =
     nearP\<lparr>vel := \<lparr>vx = 0, vy = - 8, vz = 0\<rparr>, pos := zero3\<rparr>"
  by (simp add: nearP_def ex_defs flight_def Let_def Physics_def clampVec_def len_def
      hypot3_def hypot2_def)

subsection \<open>The ball loop of the tick\<close>


subsection \<open>Scores\<close>

lemma find_None_updFirst: "find P xs = None \<Longrightarrow> updFirst P f xs = xs"
  by (induction xs) (auto split: if_splits)

lemma sum_score_addScore:
  "sum_list (map score (addScore i n ts)) =
     sum_list (map score ts) + (if teamById ts i = None then 0 else n)"
  unfolding addScore_def teamById_def
  by (induction ts) auto

lemma snitchLoop_first:
  "\<forall>q\<in>set pre. \<not> dist3 s (pos q) < 1.5 \<Longrightarrow> dist3 s (pos p) < 1.5 \<Longrightarrow>
     snitchLoop s (pre @ p # post) ts = addScore (teamId p) SCORE_SNITCH ts"
  by (induction pre) (auto simp: addScore_def teamById_def find_None_updFirst split: option.splits)

lemma snitchLoop_none:
  "\<forall>q\<in>set ps. \<not> dist3 s (pos q) < 1.5 \<Longrightarrow> snitchLoop s ps ts = ts"
  by (induction ps) auto

lemma snitchLoop_total:
  "sum_list (map score (snitchLoop s ps ts)) = sum_list (map score ts) \<or>
   sum_list (map score (snitchLoop s ps ts)) = sum_list (map score ts) + SCORE_SNITCH"
  by (induction ps) (auto simp: sum_score_addScore split: option.splits)

lemma tick_snitchWorld:
  "tick (1/60) 0 (snitchWorld\<lparr>teams := ts\<rparr>) =
     snitchWorld\<lparr>teams := addScore ''gry'' SCORE_SNITCH ts\<rparr>"
  if "teamById ts ''gry'' \<noteq> None"
  using that
  apply (simp add: tick_def Let_def snitchWorld_def exWorld_def exPlayer_def exBall_def hover_def
      tickBall_def resolveInteractions_def goalScoring_def scorePlayer_def bludgerKnock_def
      snitchCapture_def dist3_def hypot3_def updatePlayerPhysics_def exBounds_def)
  apply (auto split: option.splits)
  done

subsection \<open>The resolver only releases balls\<close>

lemma released_refl: "list_all2 released bs bs"
  by (simp add: list_all2_refl released_def)

lemma released_trans:
  "list_all2 released as bs \<Longrightarrow> list_all2 released bs cs \<Longrightarrow> list_all2 released as cs"
  by (rule list_all2_trans [of released released released]) (auto simp: released_def)

lemma released_updFirst:
  "(\<And>b. owner (f b) = None) \<Longrightarrow> list_all2 released bs (updFirst P f bs)"
  by (induction bs) (auto simp: released_def list_all2_refl)

lemma released_scoreGoals:
  "list_all2 released bs (snd (snd (scoreGoals bnd c gs p (ts, bs))))"
proof (induction gs arbitrary: p ts bs)
  case Nil
  show ?case by (simp add: released_refl)
next
  case (Cons g gs)
  have r: "list_all2 released bs (updFirst (\<lambda>b. bid b = c) (resetQuaffle bnd) bs)"
    by (rule released_updFirst) (simp add: resetQuaffle_def)
  show ?case
    using Cons.IH r by (auto split: option.splits intro: released_trans)
qed

lemma released_scorePlayer:
  "list_all2 released (snd s) (snd (snd (scorePlayer bnd gs p s)))"
  by (cases s) (auto simp: scorePlayer_def released_refl released_scoreGoals split: option.splits)

lemma released_knock: "list_all2 released bs (snd (knock nowMs i p bs))"
  by (auto simp: knock_def Let_def released_refl dropBall_def intro!: released_updFirst)

lemma released_forEach:
  assumes "\<And>x s. list_all2 released (sel s) (sel (snd (f x s)))"
  shows "list_all2 released (sel s) (sel (snd (forEach f xs s)))"
proof (induction xs arbitrary: s)
  case Nil
  show ?case by (simp add: released_refl)
next
  case (Cons x xs)
  obtain x' s' where f: "f x s = (x', s')" by (cases "f x s")
  obtain xs' s'' where g: "forEach f xs s' = (xs', s'')" by (cases "forEach f xs s'")
  have "list_all2 released (sel s) (sel s')" using assms [of s x] f by simp
  moreover have "list_all2 released (sel s') (sel s'')" using Cons.IH [of s'] g by simp
  ultimately show ?case using f g by (auto intro: released_trans)
qed

lemma released_bludgerLoop:
  "list_all2 released bs (snd (bludgerLoop nowMs is (ps, bs)))"
proof (induction "is" arbitrary: ps bs)
  case Nil
  show ?case by (simp add: released_refl)
next
  case (Cons i "is")
  have k: "list_all2 released bs (snd (forEach (knock nowMs i) ps bs))"
    using released_forEach [of "\<lambda>s. s" "knock nowMs i" bs ps] released_knock by simp
  show ?case
  proof (cases "kind (bs ! i) = Bludger")
    case True
    obtain ps' bs' where e: "forEach (knock nowMs i) ps bs = (ps', bs')"
      by (cases "forEach (knock nowMs i) ps bs")
    then show ?thesis using True k Cons.IH [of bs' ps'] by (auto intro: released_trans)
  next
    case False
    then show ?thesis using Cons.IH [of bs ps] by simp
  qed
qed

lemma released_resolveInteractions:
  "list_all2 released (balls w) (balls (resolveInteractions nowMs w))"
proof -
  have 1: "list_all2 released (balls w) (balls (goalScoring w))"
    using released_forEach [of snd "scorePlayer (bounds w) (goals w)" "(teams w, balls w)" "players w"]
      released_scorePlayer
    by (auto simp: goalScoring_def split: prod.splits)
  have 2: "list_all2 released (balls v) (balls (bludgerKnock nowMs v))" for v
    using released_bludgerLoop [of "balls v" nowMs "[0..<length (balls v)]" "players v"]
    by (auto simp: bludgerKnock_def split: prod.splits)
  have 3: "balls (snitchCapture v) = balls v" for v
    by (simp add: snitchCapture_def split: option.splits)
  show ?thesis
    unfolding resolveInteractions_def 3 using 1 2 [of "goalScoring w"] by (rule released_trans)
qed

lemma tickBall_owned: "truthy (owner b) \<Longrightarrow> tickBall ps dt nowMs b = b"
  by (simp add: tickBall_def)

lemma tick_carrier:
  "tick dt nowMs (exWorld [exPlayer hover 0 (Some ''q'')] [exBall ''q'' Quaffle q (Some ''p1'')]) =
     exWorld [exPlayer hover 0 (Some ''q'')] [exBall ''q'' Quaffle q (Some ''p1'')]"
  by (simp add: tick_def Let_def exWorld_def exPlayer_def exBall_def hover_def
      tickBall_def resolveInteractions_def goalScoring_def scorePlayer_def bludgerKnock_def
      snitchCapture_def updatePlayerPhysics_def exBounds_def)

subsection \<open>The goal-scoring loop\<close>

lemma addScore_addScore: "addScore i a (addScore i b ts) = addScore i (b + a) ts"
  unfolding addScore_def by (induction ts) auto

lemma addScore_zero: "addScore i 0 ts = ts"
  unfolding addScore_def by (induction ts) auto

lemma addScore_no_team: "teamById ts i = None \<Longrightarrow> addScore i n ts = ts"
  unfolding addScore_def teamById_def by (rule find_None_updFirst)

lemma teamById_addScore:
  "teamById (addScore j n ts) i =
     (if i = j then map_option (\<lambda>t. t\<lparr>score := score t + n\<rparr>) (teamById ts i) else teamById ts i)"
  unfolding addScore_def teamById_def by (induction ts) auto

lemma updFirst_idem:
  "(\<And>x. P x \<Longrightarrow> P (f x)) \<Longrightarrow> (\<And>x. f (f x) = f x) \<Longrightarrow>
     updFirst P f (updFirst P f xs) = updFirst P f xs"
  by (induction xs) auto

lemma resetQuaffle_idem: "resetQuaffle bnd (resetQuaffle bnd b) = resetQuaffle bnd b"
  by (simp add: resetQuaffle_def)

lemma zonesInRange_carrying [simp]: "zonesInRange gs (p\<lparr>carrying := c\<rparr>) = zonesInRange gs p"
  by (simp add: zonesInRange_def)

lemma scoreGoals_closed:
  "scoreGoals bnd c gs p (ts, bs) =
     (if zonesInRange gs p = 0 \<or> teamById ts (teamId p) = None then (p, ts, bs)
      else (p\<lparr>carrying := None\<rparr>,
            addScore (teamId p) (SCORE_QUAFFLE * int (zonesInRange gs p)) ts,
            updFirst (\<lambda>b. bid b = c) (resetQuaffle bnd) bs))"
proof (induction gs arbitrary: p ts bs)
  case Nil
  show ?case by (simp add: zonesInRange_def)
next
  case (Cons g gs)
  have idem: "updFirst (\<lambda>b. bid b = c) (resetQuaffle bnd)
                (updFirst (\<lambda>b. bid b = c) (resetQuaffle bnd) bs) =
              updFirst (\<lambda>b. bid b = c) (resetQuaffle bnd) bs"
    by (rule updFirst_idem) (simp_all add: resetQuaffle_def)
  have z: "zonesInRange (g # gs) p =
             (if dist3 (pos p) (center g) < radius g then Suc (zonesInRange gs p)
              else zonesInRange gs p)"
    by (simp add: zonesInRange_def)
  show ?case
  proof (cases "dist3 (pos p) (center g) < radius g")
    case False
    then show ?thesis using Cons.IH [of p ts bs] z by simp
  next
    case True
    show ?thesis
    proof (cases "teamById ts (teamId p)")
      case None
      then show ?thesis using True Cons.IH [of p ts bs] by simp
    next
      case (Some t)
      have "teamById (addScore (teamId p) SCORE_QUAFFLE ts) (teamId p) =
              Some (t\<lparr>score := score t + SCORE_QUAFFLE\<rparr>)"
        using Some by (simp add: teamById_addScore)
      then show ?thesis
        using True Some z
          Cons.IH [of "p\<lparr>carrying := None\<rparr>" "addScore (teamId p) SCORE_QUAFFLE ts"
            "updFirst (\<lambda>b. bid b = c) (resetQuaffle bnd) bs"]
        by (simp add: idem addScore_addScore algebra_simps)
    qed
  qed
qed

lemma find_bid: "find (\<lambda>b. Some (bid b) = c) bs = Some b \<Longrightarrow> c = Some (bid b)"
  by (induction bs) (auto split: if_splits)

lemma scorePlayer_closed:
  "scorePlayer bnd gs p (ts, bs) =
     (if carriesQuaffle bs p \<and> zonesInRange gs p \<noteq> 0 \<and> teamById ts (teamId p) \<noteq> None
      then (p\<lparr>carrying := None\<rparr>,
            addScore (teamId p) (SCORE_QUAFFLE * int (zonesInRange gs p)) ts,
            updFirst (\<lambda>b. Some (bid b) = carrying p) (resetQuaffle bnd) bs)
      else (p, ts, bs))"
proof (cases "find (\<lambda>b. Some (bid b) = carrying p) bs")
  case None
  then show ?thesis by (simp add: scorePlayer_def carriesQuaffle_def)
next
  case (Some b)
  have "carrying p = Some (bid b)" using find_bid [OF Some] .
  then have e: "(\<lambda>x. bid x = bid b) = (\<lambda>x. Some (bid x) = carrying p)" by auto
  show ?thesis using Some
    by (auto simp: scorePlayer_def carriesQuaffle_def scoreGoals_closed e)
qed

lemma scorePlayer_teams:
  "fst (snd (scorePlayer bnd gs p (ts, bs))) =
     addScore (teamId p) (SCORE_QUAFFLE * credit bs gs p) ts"
  by (auto simp: scorePlayer_closed credit_def addScore_zero addScore_no_team)

lemma forEach_invariant:
  assumes "\<And>s. R s s" and "\<And>a b c. R a b \<Longrightarrow> R b c \<Longrightarrow> R a c"
    and "\<And>x s. R s (snd (f x s))"
  shows "R s (snd (forEach f xs s))"
proof (induction xs arbitrary: s)
  case Nil
  show ?case by (simp add: assms(1))
next
  case (Cons x xs)
  obtain x' s' where f: "f x s = (x', s')" by (cases "f x s")
  obtain xs' s'' where g: "forEach f xs s' = (xs', s'')" by (cases "forEach f xs s'")
  have "R s s'" using assms(3) [of s x] f by simp
  moreover have "R s' s''" using Cons.IH [of s'] g by simp
  ultimately have "R s s''" by (rule assms(2))
  then show ?case using f g by simp
qed

lemma forEach_append:
  "forEach f (xs @ ys) s =
     (case forEach f xs s of (xs', s') \<Rightarrow>
        (case forEach f ys s' of (ys', s'') \<Rightarrow> (xs' @ ys', s'')))"
  by (induction xs arbitrary: s) (auto split: prod.splits)

lemma forEach_length: "length (fst (forEach f xs s)) = length xs"
proof (induction xs arbitrary: s)
  case Nil
  show ?case by simp
next
  case (Cons x xs)
  obtain x' s' where f: "f x s = (x', s')" by (cases "f x s")
  obtain xs' s'' where g: "forEach f xs s' = (xs', s'')" by (cases "forEach f xs s'")
  show ?case using f g Cons.IH [of s'] by simp
qed

lemma resetOrSame_refl: "list_all2 (resetOrSame bnd) bs bs"
  by (simp add: list_all2_refl resetOrSame_def)

lemma resetOrSame_trans:
  "list_all2 (resetOrSame bnd) as bs \<Longrightarrow> list_all2 (resetOrSame bnd) bs cs \<Longrightarrow>
     list_all2 (resetOrSame bnd) as cs"
  by (rule list_all2_trans [of "resetOrSame bnd" "resetOrSame bnd" "resetOrSame bnd"])
     (auto simp: resetOrSame_def resetQuaffle_idem)

lemma resetOrSame_updFirst: "list_all2 (resetOrSame bnd) bs (updFirst P (resetQuaffle bnd) bs)"
  by (induction bs) (auto simp: resetOrSame_def list_all2_refl)

lemma tid_addScore: "map tid (addScore i n ts) = map tid ts"
  unfolding addScore_def by (induction ts) auto

lemma sameBalls_refl: "sameBalls bnd s s"
  by (simp add: sameBalls_def resetOrSame_refl)

lemma sameBalls_trans: "sameBalls bnd a b \<Longrightarrow> sameBalls bnd b c \<Longrightarrow> sameBalls bnd a c"
  by (auto simp: sameBalls_def intro: resetOrSame_trans)

lemma sameBalls_scorePlayer: "sameBalls bnd s (snd (scorePlayer bnd gs p s))"
  by (cases s) (auto simp: scorePlayer_closed sameBalls_def tid_addScore resetOrSame_refl
      resetOrSame_updFirst)

lemma sameBalls_forEach: "sameBalls bnd s (snd (forEach (scorePlayer bnd gs) ps s))"
  by (rule forEach_invariant [of "sameBalls bnd"])
     (auto intro: sameBalls_refl sameBalls_trans sameBalls_scorePlayer)

lemma find_resetOrSame:
  "list_all2 (resetOrSame bnd) bs bs' \<Longrightarrow> find (\<lambda>b. P (bid b) (kind b)) bs = Some b \<Longrightarrow>
     \<exists>b'. find (\<lambda>b. P (bid b) (kind b)) bs' = Some b' \<and> resetOrSame bnd b b'"
  by (induction rule: list_all2_induct)
     (auto simp: resetOrSame_def resetQuaffle_def split: if_splits)

lemma find_None_resetOrSame:
  "list_all2 (resetOrSame bnd) bs bs' \<Longrightarrow> find (\<lambda>b. P (bid b) (kind b)) bs = None \<Longrightarrow>
     find (\<lambda>b. P (bid b) (kind b)) bs' = None"
  by (induction rule: list_all2_induct)
     (auto simp: resetOrSame_def resetQuaffle_def split: if_splits)

lemma carriesQuaffle_resetOrSame:
  assumes "list_all2 (resetOrSame bnd) bs bs'"
  shows "carriesQuaffle bs' p = carriesQuaffle bs p"
proof (cases "find (\<lambda>b. Some (bid b) = carrying p) bs")
  case None
  then have "find (\<lambda>b. Some (bid b) = carrying p) bs' = None"
    using find_None_resetOrSame [OF assms, of "\<lambda>i k. Some i = carrying p"] by simp
  with None show ?thesis by (simp add: carriesQuaffle_def)
next
  case (Some b)
  then obtain b' where "find (\<lambda>b. Some (bid b) = carrying p) bs' = Some b'" "resetOrSame bnd b b'"
    using find_resetOrSame [OF assms, of "\<lambda>i k. Some i = carrying p" b] by auto
  with Some show ?thesis by (auto simp: carriesQuaffle_def resetOrSame_def resetQuaffle_def)
qed

lemma credit_resetOrSame:
  "list_all2 (resetOrSame bnd) bs bs' \<Longrightarrow> credit bs' gs p = credit bs gs p"
  by (simp add: credit_def carriesQuaffle_resetOrSame)

lemma forEach_scorePlayer_teams:
  "list_all2 (resetOrSame bnd) bs0 bs \<Longrightarrow>
     fst (snd (forEach (scorePlayer bnd gs) ps (ts, bs))) =
       fold (\<lambda>q. addScore (teamId q) (SCORE_QUAFFLE * credit bs0 gs q)) ps ts"
proof (induction ps arbitrary: ts bs)
  case Nil
  show ?case by simp
next
  case (Cons p ps)
  obtain p' ts1 bs1 where f: "scorePlayer bnd gs p (ts, bs) = (p', ts1, bs1)"
    by (cases "scorePlayer bnd gs p (ts, bs)")
  have t: "ts1 = addScore (teamId p) (SCORE_QUAFFLE * credit bs0 gs p) ts"
    using scorePlayer_teams [of bnd gs p ts bs] f credit_resetOrSame [OF Cons.prems] by simp
  have "sameBalls bnd (ts, bs) (ts1, bs1)"
    using sameBalls_scorePlayer [of bnd "(ts, bs)" gs p] f by simp
  then have "list_all2 (resetOrSame bnd) bs0 bs1"
    using Cons.prems by (auto simp: sameBalls_def intro: resetOrSame_trans)
  from Cons.IH [OF this, of ts1]
  have i: "fst (snd (forEach (scorePlayer bnd gs) ps (ts1, bs1))) =
             fold (\<lambda>q. addScore (teamId q) (SCORE_QUAFFLE * credit bs0 gs q)) ps ts1" .
  obtain ps' s'' where g: "forEach (scorePlayer bnd gs) ps (ts1, bs1) = (ps', s'')"
    by (cases "forEach (scorePlayer bnd gs) ps (ts1, bs1)")
  show ?case using f g i t by simp
qed

lemma teamById_fold_addScore:
  "teamById (fold (\<lambda>q. addScore (teamId q) (n q)) ps ts) i =
     map_option (\<lambda>t. t\<lparr>score := score t + (\<Sum>q\<leftarrow>ps. if teamId q = i then n q else 0)\<rparr>)
       (teamById ts i)"
proof (induction ps arbitrary: ts)
  case Nil
  show ?case by (cases "teamById ts i") simp_all
next
  case (Cons p ps)
  have "teamById (fold (\<lambda>q. addScore (teamId q) (n q)) (p # ps) ts) i =
          map_option (\<lambda>t. t\<lparr>score := score t + (\<Sum>q\<leftarrow>ps. if teamId q = i then n q else 0)\<rparr>)
            (teamById (addScore (teamId p) (n p) ts) i)"
    by (simp add: Cons.IH)
  also have "\<dots> =
          map_option (\<lambda>t. t\<lparr>score := score t + (\<Sum>q\<leftarrow>p # ps. if teamId q = i then n q else 0)\<rparr>)
            (teamById ts i)"
    by (cases "teamById ts i") (auto simp: teamById_addScore algebra_simps)
  finally show ?case .
qed

lemma teamById_tid: "map tid ts' = map tid ts \<Longrightarrow> (teamById ts' i = None) = (teamById ts i = None)"
proof -
  assume e: "map tid ts' = map tid ts"
  have a: "(teamById ts i = None) = (i \<notin> set (map tid ts))" for ts
    unfolding teamById_def by (induction ts) auto
  show "(teamById ts' i = None) = (teamById ts i = None)"
    unfolding a e ..
qed

lemma find_updFirst_same:
  "find P xs = Some x \<Longrightarrow> P (f x) \<Longrightarrow> find P (updFirst P f xs) = Some (f x)"
  by (induction xs) (auto split: if_splits)

lemma scorer_in_hoop: "dist3 (pos scorer) (center (hoop 0)) < radius (hoop 0)"
  "dist3 (pos scorer) (center (hoop 2)) < radius (hoop 2)"
  by (simp_all add: scorer_def exPlayer_def hoop_def dist3_def hypot3_def)

subsection \<open>Team assignment\<close>

lemma fold_zero_counts:
  "fold (\<lambda>t m. m(tid t \<mapsto> 0)) ts m i = (if i \<in> set (map tid ts) then Some (0::nat) else m i)"
  by (induction ts arbitrary: m) auto

lemma fold_player_counts:
  "fold (\<lambda>p m. m(teamId p \<mapsto> (case m (teamId p) of None \<Rightarrow> 0 | Some c \<Rightarrow> c) + 1)) ps m i =
     (case m i of
        None \<Rightarrow> if teamCount i ps = 0 then None else Some (teamCount i ps)
      | Some c \<Rightarrow> Some (c + teamCount i ps))"
  by (induction ps arbitrary: m) (auto simp: teamCount_def split: option.splits)

lemma countTeams_team:
  "t \<in> set ts \<Longrightarrow> countTeams ts ps (tid t) = Some (teamCount (tid t) ps)"
  unfolding countTeams_def fold_player_counts fold_zero_counts by simp

lemma pickLoop_min:
  assumes "\<forall>u\<in>set ts. counts (tid u) = Some (n u)"
  shows "(pickLoop counts ts (Some t0) (Some m) = Some t0 \<and> (\<forall>u\<in>set ts. m \<le> n u)) \<or>
         (\<exists>pre t post. ts = pre @ t # post \<and> pickLoop counts ts (Some t0) (Some m) = Some t \<and>
            n t < m \<and> (\<forall>u\<in>set pre. n t < n u) \<and> (\<forall>u\<in>set post. n t \<le> n u))"
  using assms
proof (induction ts arbitrary: t0 m)
  case Nil
  show ?case by simp
next
  case (Cons a ts)
  have ca: "counts (tid a) = Some (n a)" using Cons.prems by simp
  have rest: "\<forall>u\<in>set ts. counts (tid u) = Some (n u)" using Cons.prems by simp
  show ?case
  proof (cases "n a < m")
    case True
    have r: "pickLoop counts (a # ts) (Some t0) (Some m) = pickLoop counts ts (Some a) (Some (n a))"
      using ca True by simp
    from Cons.IH [OF rest, of a "n a"] show ?thesis
    proof
      assume h: "pickLoop counts ts (Some a) (Some (n a)) = Some a \<and> (\<forall>u\<in>set ts. n a \<le> n u)"
      have "a # ts = [] @ a # ts \<and> pickLoop counts (a # ts) (Some t0) (Some m) = Some a \<and>
            n a < m \<and> (\<forall>u\<in>set []. n a < n u) \<and> (\<forall>u\<in>set ts. n a \<le> n u)"
        using h r True by simp
      then show ?thesis by blast
    next
      assume "\<exists>pre t post. ts = pre @ t # post \<and>
                pickLoop counts ts (Some a) (Some (n a)) = Some t \<and> n t < n a \<and>
                (\<forall>u\<in>set pre. n t < n u) \<and> (\<forall>u\<in>set post. n t \<le> n u)"
      then obtain pre t post where h: "ts = pre @ t # post"
        "pickLoop counts ts (Some a) (Some (n a)) = Some t" "n t < n a"
        "\<forall>u\<in>set pre. n t < n u" "\<forall>u\<in>set post. n t \<le> n u" by blast
      have "a # ts = (a # pre) @ t # post \<and> pickLoop counts (a # ts) (Some t0) (Some m) = Some t \<and>
            n t < m \<and> (\<forall>u\<in>set (a # pre). n t < n u) \<and> (\<forall>u\<in>set post. n t \<le> n u)"
        using h r True by simp
      then show ?thesis by blast
    qed
  next
    case False
    have r: "pickLoop counts (a # ts) (Some t0) (Some m) = pickLoop counts ts (Some t0) (Some m)"
      using ca False by simp
    from Cons.IH [OF rest, of t0 m] show ?thesis
    proof
      assume h: "pickLoop counts ts (Some t0) (Some m) = Some t0 \<and> (\<forall>u\<in>set ts. m \<le> n u)"
      then show ?thesis using r False by simp
    next
      assume "\<exists>pre t post. ts = pre @ t # post \<and>
                pickLoop counts ts (Some t0) (Some m) = Some t \<and> n t < m \<and>
                (\<forall>u\<in>set pre. n t < n u) \<and> (\<forall>u\<in>set post. n t \<le> n u)"
      then obtain pre t post where h: "ts = pre @ t # post"
        "pickLoop counts ts (Some t0) (Some m) = Some t" "n t < m"
        "\<forall>u\<in>set pre. n t < n u" "\<forall>u\<in>set post. n t \<le> n u" by blast
      have "a # ts = (a # pre) @ t # post \<and> pickLoop counts (a # ts) (Some t0) (Some m) = Some t \<and>
            n t < m \<and> (\<forall>u\<in>set (a # pre). n t < n u) \<and> (\<forall>u\<in>set post. n t \<le> n u)"
        using h r False by simp
      then show ?thesis by blast
    qed
  qed
qed

lemma autoAssignTeam_first_min:
  assumes "ts \<noteq> []"
  shows "\<exists>pre t post. ts = pre @ t # post \<and> autoAssignTeam ts ps = Some t \<and>
           (\<forall>u\<in>set pre. teamCount (tid t) ps < teamCount (tid u) ps) \<and>
           (\<forall>u\<in>set post. teamCount (tid t) ps \<le> teamCount (tid u) ps)"
proof -
  obtain a ts' where ts: "ts = a # ts'" using assms by (cases ts) auto
  let ?c = "countTeams ts ps"
  let ?n = "\<lambda>u. teamCount (tid u) ps"
  have all: "\<forall>u\<in>set ts. ?c (tid u) = Some (?n u)" by (simp add: countTeams_team)
  then have rest: "\<forall>u\<in>set ts'. ?c (tid u) = Some (?n u)" and ca: "?c (tid a) = Some (?n a)"
    by (simp_all add: ts)
  have r: "autoAssignTeam ts ps = pickLoop ?c ts' (Some a) (Some (?n a))"
    using ca by (simp add: autoAssignTeam_def ts)
  from pickLoop_min [OF rest, of a "?n a"] show ?thesis
  proof
    assume h: "pickLoop ?c ts' (Some a) (Some (?n a)) = Some a \<and> (\<forall>u\<in>set ts'. ?n a \<le> ?n u)"
    have "ts = [] @ a # ts' \<and> autoAssignTeam ts ps = Some a \<and>
            (\<forall>u\<in>set []. ?n a < ?n u) \<and> (\<forall>u\<in>set ts'. ?n a \<le> ?n u)"
      using h r ts by simp
    then show ?thesis by blast
  next
    assume "\<exists>pre t post. ts' = pre @ t # post \<and>
              pickLoop ?c ts' (Some a) (Some (?n a)) = Some t \<and> ?n t < ?n a \<and>
              (\<forall>u\<in>set pre. ?n t < ?n u) \<and> (\<forall>u\<in>set post. ?n t \<le> ?n u)"
    then obtain pre t post where h: "ts' = pre @ t # post"
      "pickLoop ?c ts' (Some a) (Some (?n a)) = Some t" "?n t < ?n a"
      "\<forall>u\<in>set pre. ?n t < ?n u" "\<forall>u\<in>set post. ?n t \<le> ?n u" by blast
    have "ts = (a # pre) @ t # post \<and> autoAssignTeam ts ps = Some t \<and>
            (\<forall>u\<in>set (a # pre). ?n t < ?n u) \<and> (\<forall>u\<in>set post. ?n t \<le> ?n u)"
      using h r ts by simp
    then show ?thesis by blast
  qed
qed

lemma teamCount_append: "teamCount j (ps @ [v]) = teamCount j ps + (if teamId v = j then 1 else 0)"
  by (simp add: teamCount_def)

lemma teamCount_updFirst:
  "teamCount j (updFirst P (\<lambda>_. v) ps) \<le> teamCount j ps + (if teamId v = j then 1 else 0)"
  by (induction ps) (auto simp: teamCount_def)

lemma teamCount_playersSet:
  "teamCount j (playersSet i v ps) \<le> teamCount j ps + (if teamId v = j then 1 else 0)"
proof (cases "find (\<lambda>p. pid p = i) ps")
  case None
  then show ?thesis by (simp add: playersSet_def teamCount_append)
next
  case (Some q)
  then show ?thesis
    using teamCount_updFirst [of j "\<lambda>p. pid p = i" v ps] by (simp add: playersSet_def)
qed

lemma sum_indicator_distinct:
  "distinct (map tid ts) \<Longrightarrow> sum_list (map (\<lambda>t. if tid t = j then 1 else 0) ts) \<le> (1::nat)"
proof (induction ts)
  case Nil
  show ?case by simp
next
  case (Cons a ts)
  show ?case
  proof (cases "tid a = j")
    case True
    have "tid a \<notin> tid ` set ts" using Cons.prems by simp
    then have "\<forall>t\<in>set ts. tid t \<noteq> j" unfolding True [symmetric] by (metis imageI)
    then have "sum_list (map (\<lambda>t. if tid t = j then 1 else 0) ts) = (0::nat)"
      by (induction ts) auto
    with True show ?thesis by simp
  next
    case False
    then show ?thesis using Cons by simp
  qed
qed

lemma sum_counts_step:
  assumes "distinct (map tid ts)"
    and "\<And>j. c' j \<le> c j + (if k = j then 1 else 0)"
  shows "sum_list (map (\<lambda>t. c' (tid t)) ts) \<le> sum_list (map (\<lambda>t. c (tid t)) ts) + (1::nat)"
proof -
  have p: "c' (tid t) \<le> c (tid t) + (if tid t = k then 1 else 0)" for t
    using assms(2) [of "tid t"] by (auto split: if_splits)
  have "sum_list (map (\<lambda>t. c' (tid t)) ts) \<le>
          sum_list (map (\<lambda>t. c (tid t) + (if tid t = k then 1 else 0)) ts)"
    by (rule sum_list_mono) (rule p)
  also have "\<dots> = sum_list (map (\<lambda>t. c (tid t)) ts) +
                   sum_list (map (\<lambda>t. if tid t = k then 1 else 0) ts)"
    by (simp add: sum_list_addf)
  also have "\<dots> \<le> sum_list (map (\<lambda>t. c (tid t)) ts) + 1"
    using sum_indicator_distinct [OF assms(1), of k] by simp
  finally show ?thesis .
qed

lemma sum_list_ge_min:
  "\<forall>u\<in>set ts. m \<le> f u \<Longrightarrow> length ts * m \<le> sum_list (map f ts)" for m :: nat
  by (induction ts) auto

lemma join_step:
  assumes "teams w \<noteq> []" and "distinct (map tid (teams w))" and "fairAfter n w"
  shows "\<exists>w'. onPlayerJoin i nm w = Some w' \<and> teams w' = teams w \<and> fairAfter (Suc n) w'"
proof -
  let ?ts = "teams w" and ?ps = "players w"
  let ?T = "length ?ts"
  obtain pre t post where d: "?ts = pre @ t # post" and a: "autoAssignTeam ?ts ?ps = Some t"
    and lo: "\<forall>u\<in>set pre. teamCount (tid t) ?ps < teamCount (tid u) ?ps"
    and hi: "\<forall>u\<in>set post. teamCount (tid t) ?ps \<le> teamCount (tid u) ?ps"
    using autoAssignTeam_first_min [OF assms(1), of ?ps] by blast
  define v where "v = \<lparr>pid = i, name = nm, teamId = tid t, pos = spawn t, vel = zero3,
     mounted = True, stamina = 1, stunnedUntil = 0, carrying = None\<rparr>"
  define w' where "w' = w\<lparr>players := playersSet i v ?ps\<rparr>"
  have j: "onPlayerJoin i nm w = Some w'" using a by (simp add: onPlayerJoin_def w'_def v_def)
  have tv: "teamId v = tid t" by (simp add: v_def)
  have step: "teamCount j (players w') \<le> teamCount j ?ps + (if tid t = j then 1 else 0)" for j
    using teamCount_playersSet [of j i v ?ps] by (simp add: w'_def tv)
  have tin: "t \<in> set ?ts" using d by simp
  have min: "\<forall>u\<in>set ?ts. teamCount (tid t) ?ps \<le> teamCount (tid u) ?ps"
    using lo hi d by (auto simp: less_imp_le)
  have S: "sum_list (map (\<lambda>t. teamCount (tid t) ?ps) ?ts) \<le> n"
    using assms(3) by (simp add: fairAfter_def)
  have tmin: "?T * teamCount (tid t) ?ps \<le> n"
    using sum_list_ge_min [OF min] S by linarith
  have S': "sum_list (map (\<lambda>t. teamCount (tid t) (players w')) ?ts) \<le> Suc n"
    using sum_counts_step [OF assms(2), of "\<lambda>j. teamCount j (players w')"
        "\<lambda>j. teamCount j ?ps" "tid t"] step S by simp
  have B: "?T * teamCount (tid u) (players w') < Suc n + ?T" if u: "u \<in> set ?ts" for u
  proof (cases "tid u = tid t")
    case True
    have "teamCount (tid u) (players w') \<le> teamCount (tid t) ?ps + 1"
      using step [of "tid u"] True by simp
    then have "?T * teamCount (tid u) (players w') \<le> ?T * (teamCount (tid t) ?ps + 1)"
      by (rule mult_le_mono2)
    also have "\<dots> = ?T * teamCount (tid t) ?ps + ?T" by simp
    finally show ?thesis using tmin by linarith
  next
    case False
    have le: "teamCount (tid u) (players w') \<le> teamCount (tid u) ?ps"
      using step [of "tid u"] False by (simp add: eq_commute)
    have "?T * teamCount (tid u) ?ps < n + ?T"
      using assms(3) u by (simp add: fairAfter_def)
    moreover have "?T * teamCount (tid u) (players w') \<le> ?T * teamCount (tid u) ?ps"
      using le by (rule mult_le_mono2)
    ultimately show ?thesis by linarith
  qed
  have "teams w' = ?ts" by (simp add: w'_def)
  moreover have "fairAfter (Suc n) w'"
    using S' B by (simp add: fairAfter_def w'_def)
  ultimately show ?thesis using j by blast
qed

lemma joinAll_fair:
  assumes "teams w \<noteq> []" and "distinct (map tid (teams w))" and "fairAfter n w"
  shows "\<exists>w'. joinAll js w = Some w' \<and> teams w' = teams w \<and> fairAfter (n + length js) w'"
  using assms
proof (induction js arbitrary: w n)
  case Nil
  then show ?case by simp
next
  case (Cons a js)
  obtain i nm where a: "a = (i, nm)" by (cases a)
  obtain w1 where 1: "onPlayerJoin i nm w = Some w1" "teams w1 = teams w" "fairAfter (Suc n) w1"
    using join_step [OF Cons.prems] by blast
  obtain w' where 2: "joinAll js w1 = Some w'" "teams w' = teams w1"
    "fairAfter (Suc n + length js) w'"
    using Cons.IH [of w1 "Suc n"] Cons.prems(1,2) 1 by auto
  show ?case using 1 2 by (simp add: a)
qed

lemma ceiling_bound:
  assumes "T * c < N + T" and T: "0 < T"
  shows "int c \<le> \<lceil>real N / real T\<rceil>"
proof -
  have "(real c - 1) * real T < real N"
  proof -
    have "real (T * c) < real (N + T)" using assms(1) by (simp only: of_nat_less_iff)
    then show ?thesis by (simp add: algebra_simps)
  qed
  then have "real c - 1 < real N / real T" using T by (simp add: pos_less_divide_eq)
  then have "real_of_int (int c - 1) < real N / real T" by simp
  then have "int c - 1 < \<lceil>real N / real T\<rceil>" by (simp only: less_ceiling_iff)
  then show ?thesis by simp
qed

lemma joinAll_threeJoins:
  "map_option (\<lambda>w. map teamId (players w)) (joinAll threeJoins (exWorld [] [])) =
     Some [''gry'', ''sly'', ''gry'']"
  by (simp add: threeJoins_def exWorld_def exTeams_def onPlayerJoin_def autoAssignTeam_def
      countTeams_def playersSet_def)

section \<open>The same rules in the game server\<close>

text \<open>
  What \<^verbatim>\<open>index.ts\<close> does at the places where the two copies are compared below: its math
  helpers are those of \<^verbatim>\<open>game.ts\<close>; a carried ball is put two units above its owner at
  every update; the bludger loop skips a stunned player; a stunned player's interact
  command is ignored; a pickup takes the first eligible ball in registry order; a leaving
  player's ball is released.
\<close>

lemma normalize_eq_norm3: "normalize v = norm3 v"
  by (simp add: normalize_def norm3_def lenOr1_def len_def length3_def Let_def)

lemma distance_eq_dist3: "distance a b = dist3 a b"
  by (simp add: distance_def dist3_def)

lemma subtract_eq_sub: "subtract a b = sub a b"
  by (simp add: subtract_def sub_def)

lemma updateBall_carried:
  assumes "eowner b = Some ow" and "find (\<lambda>p. qid p = ow) ps = Some p"
  shows "updateBall ps dt t b =
           b\<lparr>eposition := \<lparr>vx = vx (position p), vy = vy (position p) + 2, vz = vz (position p)\<rparr>\<rparr>"
  using assms by (simp add: updateBall_def updatePhysics_def Let_def)

lemma hit_stunned: "nowMs < qstunnedUntil p \<Longrightarrow> hit nowMs i p bs = (p, bs)"
  by (simp add: hit_def)

lemma forEach_nth_unchanged:
  assumes "\<And>s. fst (f (xs ! j) s) = xs ! j" and "j < length xs"
  shows "fst (forEach f xs s) ! j = xs ! j"
  using assms
proof (induction xs arbitrary: j s)
  case Nil
  then show ?case by simp
next
  case (Cons x xs)
  obtain x' s' where f: "f x s = (x', s')" by (cases "f x s")
  obtain xs' s'' where g: "forEach f xs s' = (xs', s'')" by (cases "forEach f xs s'")
  show ?case
  proof (cases j)
    case 0
    then show ?thesis using Cons.prems(1) [of s] f g by simp
  next
    case (Suc k)
    have "fst (forEach f xs s') ! k = xs ! k"
      using Cons.IH [of k s'] Cons.prems Suc by simp
    then show ?thesis using f g Suc by simp
  qed
qed

lemma checkBludgerHits_loop_stunned:
  assumes "j < length ps" and "nowMs < qstunnedUntil (ps ! j)"
  shows "fst (checkBludgerHits_loop nowMs is (ps, bs)) ! j = ps ! j \<and>
         length (fst (checkBludgerHits_loop nowMs is (ps, bs))) = length ps"
  using assms
proof (induction "is" arbitrary: ps bs)
  case Nil
  then show ?case by simp
next
  case (Cons i "is")
  show ?case
  proof (cases "ekind (bs ! i) \<noteq> Bludger \<or> eowner (bs ! i) \<noteq> None")
    case True
    then show ?thesis using Cons.IH [of ps bs] Cons.prems by simp
  next
    case False
    obtain ps' bs' where e: "forEach (hit nowMs i) ps bs = (ps', bs')"
      by (cases "forEach (hit nowMs i) ps bs")
    have l: "length ps' = length ps" using forEach_length [of "hit nowMs i" ps bs] e by simp
    have "fst (forEach (hit nowMs i) ps bs) ! j = ps ! j"
      by (rule forEach_nth_unchanged) (simp_all add: hit_stunned Cons.prems)
    then have n: "ps' ! j = ps ! j" using e by simp
    show ?thesis using False e Cons.IH [of ps' bs'] Cons.prems l n by simp
  qed
qed

lemma checkBludgerHits_stunned:
  assumes "j < length (quidditchPlayers s)" and "nowMs < qstunnedUntil (quidditchPlayers s ! j)"
  shows "quidditchPlayers (checkBludgerHits nowMs s) ! j = quidditchPlayers s ! j"
  using checkBludgerHits_loop_stunned [OF assms, of "[0..<length (ballEntities s)]" "ballEntities s"]
  by (auto simp: checkBludgerHits_def split: prod.splits)

lemma handlePlayerInteract_stunned:
  assumes "find (\<lambda>p. qid p = i) (quidditchPlayers s) = Some p" and "nowMs < qstunnedUntil p"
  shows "handlePlayerInteract i nowMs s = s"
  using assms by (simp add: handlePlayerInteract_def)

lemma onLeftWorld_releases:
  assumes "find (\<lambda>p. qid p = i) (quidditchPlayers s) = Some p"
    and "carryingBall p = Some k" and "k < length (ballEntities s)"
  shows "eowner (ballEntities (onLeftWorld i s) ! k) = None \<and>
         find (\<lambda>p. qid p = i) (quidditchPlayers (onLeftWorld i s)) = None"
  using assms by (simp add: onLeftWorld_def find_None_iff)

lemma findIndex_first:
  "\<forall>x\<in>set pre. \<not> P x \<Longrightarrow> P b \<Longrightarrow> findIndex P (pre @ b # post) = Some (length pre)"
  by (induction pre) auto

lemma handlePlayerInteract_first:
  assumes "find (\<lambda>q. qid q = i) (quidditchPlayers s) = Some p"
    and "\<not> nowMs < qstunnedUntil p" and "carryingBall p = None"
    and "ballEntities s = pre @ b # post"
    and "\<forall>x\<in>set pre. \<not> pickable_i p x" and "pickable_i p b"
  shows "ballEntities (handlePlayerInteract i nowMs s) = pre @ b\<lparr>eowner := Some i\<rparr> # post"
  using assms by (simp add: handlePlayerInteract_def findIndex_first)

section \<open>Properties of the engine\<close>

subsection \<open>Normalisation\<close>

text \<open>
  C10.  \<^verbatim>\<open>norm\<close> never divides by zero and returns a result for every vector: each
  of its three divisions has the divisor \<open>lenOr1 a\<close>, which is never 0, so the checked
  version returns the same vector as the unchecked one.  The zero vector is mapped to the
  zero vector; so is the difference of two equal positions, which is the knockback and
  seek direction when a ball sits exactly on a player; a throw along a zero aim vector
  gives the ball zero velocity.  The result is never longer than 1.  \<^verbatim>\<open>normalize\<close> of
  \<^verbatim>\<open>index.ts\<close> is the same function.
\<close>

theorem norm_total:
  "norm_checked a = Some (norm3 a) \<and> lenOr1 a \<noteq> 0 \<and> norm3 zero3 = zero3 \<and>
   norm3 (sub q q) = zero3 \<and> len (norm3 a) \<le> 1 \<and> normalize a = norm3 a \<and>
   bvel (throwBall (inp\<lparr>throwDir := Some zero3\<rparr>) p b) = zero3"
  using lenOr1_pos [of a]
  by (simp add: norm_checked_eq norm3_zero norm3_sub_self len_norm3 normalize_eq_norm3
      throwBall_def)
     (simp add: zero3_def)

subsection \<open>Stun gating\<close>

text \<open>
  C9 at a failing input: in \<^verbatim>\<open>index.ts\<close> a player stunned until 1300 presses the ascend
  key at time 500.  The interact command is ignored, as the stun demands, but the flight
  handler reads no clock and makes no stun test: the stunned player's entity receives the
  upward impulse \<open>vertical * mass = 15\<close> (and \<open>25\<close> from \<^verbatim>\<open>/rocket\<close>).
\<close>

theorem stunned_ascend_applied_example:
  "map (\<lambda>p. 500 < qstunnedUntil p)
     (quidditchPlayers (exServer [exQPlayer zero3 1300 None] [exBallEntity Quaffle zero3 None]))
     = [True] \<and>
   handlePlayerInteract ''p1'' 500
       (exServer [exQPlayer zero3 1300 None] [exBallEntity Quaffle zero3 None])
     = exServer [exQPlayer zero3 1300 None] [exBallEntity Quaffle zero3 None] \<and>
   onTickWithPlayerInput ''p1'' 1 \<lparr>space = True, ctrl = False\<rparr>
       (exServer [exQPlayer zero3 1300 None] [exBallEntity Quaffle zero3 None])
     = exServer [(exQPlayer zero3 1300 None)\<lparr>impulses := [\<lparr>vx = 0, vy = 15, vz = 0\<rparr>]\<rparr>]
         [exBallEntity Quaffle zero3 None] \<and>
   onTickWithPlayerInput ''p1'' 1 \<lparr>space = False, ctrl = True\<rparr>
       (exServer [exQPlayer zero3 1300 None] [exBallEntity Quaffle zero3 None])
     = exServer [(exQPlayer zero3 1300 None)\<lparr>impulses := [\<lparr>vx = 0, vy = - 15, vz = 0\<rparr>]\<rparr>]
         [exBallEntity Quaffle zero3 None] \<and>
   rocket ''p1'' (exServer [exQPlayer zero3 1300 None] [exBallEntity Quaffle zero3 None])
     = exServer [(exQPlayer zero3 1300 None)\<lparr>impulses := [\<lparr>vx = 0, vy = 25, vz = 0\<rparr>]\<rparr>]
         [exBallEntity Quaffle zero3 None]"
  by (simp add: exServer_def exQPlayer_def exBallEntity_def handlePlayerInteract_def
      onTickWithPlayerInput_def rocket_def applyImpulse_def FLYING_SPEED_def Let_def)

text \<open>
  The paths that do gate on the stun: an input that arrives for a player while
  \<open>nowMs < stunnedUntil\<close> changes nothing in \<^verbatim>\<open>onPlayerInput\<close> of \<^verbatim>\<open>game.ts\<close>, which returns
  the world as it was (position, velocity, carrying reference and every ball), nor in
  \<^verbatim>\<open>handlePlayerInteract\<close> of \<^verbatim>\<open>index.ts\<close>.
\<close>

theorem stunned_input_ignored:
  assumes "find (\<lambda>q. pid q = i) (players w) = Some p" and "nowMs < stunnedUntil p"
    and "find (\<lambda>q. qid q = j) (quidditchPlayers s) = Some r" and "nowMs < qstunnedUntil r"
  shows "onPlayerInput i inp dt nowMs w = w \<and> handlePlayerInteract j nowMs s = s"
  using assms by (simp add: onPlayerInput_def handlePlayerInteract_def)

theorem stunned_input_ignored_witness:
  "find (\<lambda>q. pid q = ''p1'')
     (players (exWorld [exPlayer zero3 1300 None] [exBall ''q'' Quaffle zero3 None]))
     = Some (exPlayer zero3 1300 None) \<and>
   (500 :: real) < stunnedUntil (exPlayer zero3 1300 None) \<and>
   find (\<lambda>q. qid q = ''p1'')
     (quidditchPlayers (exServer [exQPlayer zero3 1300 None] [exBallEntity Quaffle zero3 None]))
     = Some (exQPlayer zero3 1300 None) \<and>
   (500 :: real) < qstunnedUntil (exQPlayer zero3 1300 None) \<and>
   onPlayerInput ''p1'' (idle\<lparr>interact := True, ascend := True\<rparr>) (1/60) 500
       (exWorld [exPlayer zero3 1300 None] [exBall ''q'' Quaffle zero3 None])
     = exWorld [exPlayer zero3 1300 None] [exBall ''q'' Quaffle zero3 None] \<and>
   handlePlayerInteract ''p1'' 500
       (exServer [exQPlayer zero3 1300 None] [exBallEntity Quaffle zero3 None])
     = exServer [exQPlayer zero3 1300 None] [exBallEntity Quaffle zero3 None]"
proof -
  have f: "find (\<lambda>q. pid q = ''p1'')
      (players (exWorld [exPlayer zero3 1300 None] [exBall ''q'' Quaffle zero3 None]))
     = Some (exPlayer zero3 1300 None)"
    by (simp add: exWorld_def exPlayer_def)
  have s: "(500 :: real) < stunnedUntil (exPlayer zero3 1300 None)"
    by (simp add: exPlayer_def)
  have g: "find (\<lambda>q. qid q = ''p1'')
      (quidditchPlayers (exServer [exQPlayer zero3 1300 None] [exBallEntity Quaffle zero3 None]))
     = Some (exQPlayer zero3 1300 None)"
    by (simp add: exServer_def exQPlayer_def)
  have t: "(500 :: real) < qstunnedUntil (exQPlayer zero3 1300 None)"
    by (simp add: exQPlayer_def)
  show ?thesis using f s g t stunned_input_ignored [OF f s g t] by simp
qed

subsection \<open>Gravity\<close>




subsection \<open>Pickup\<close>

text \<open>
  C4, as the claim states it, fails: with a quaffle at distance 1.5 first in the registry
  and a snitch at distance 0.5 after it, the player picks up the quaffle, the farther of
  the two, and the snitch stays without an owner.
\<close>

theorem pickup_not_nearest_example:
  "dist3 (bpos nearSnitch) zero3 < dist3 (bpos farQuaffle) zero3 \<and>
   map pos (players (onPlayerInput ''p1'' (idle\<lparr>interact := True\<rparr>) (1/2) 0
       (exWorld [nearP] [farQuaffle, nearSnitch]))) = [zero3] \<and>
   map carrying (players (onPlayerInput ''p1'' (idle\<lparr>interact := True\<rparr>) (1/2) 0
       (exWorld [nearP] [farQuaffle, nearSnitch]))) = [Some ''q''] \<and>
   map owner (balls (onPlayerInput ''p1'' (idle\<lparr>interact := True\<rparr>) (1/2) 0
       (exWorld [nearP] [farQuaffle, nearSnitch]))) = [Some ''p1'', None]"
proof -
  have d: "dist3 (bpos nearSnitch) zero3 < dist3 (bpos farQuaffle) zero3"
    by (simp add: dist3_def hypot3_def nearSnitch_def farQuaffle_def exBall_def zero3_def)
  have pk: "pickable (nearP\<lparr>vel := \<lparr>vx = 0, vy = - 8, vz = 0\<rparr>, pos := zero3\<rparr>) farQuaffle"
    by (simp add: pickable_def farQuaffle_def exBall_def zero3_def dist3_def hypot3_less_iff
        power2_eq_square)
  have w: "onPlayerInput ''p1'' (idle\<lparr>interact := True\<rparr>) (1/2) 0
       (exWorld [nearP] [farQuaffle, nearSnitch]) =
     exWorld [nearP\<lparr>vel := \<lparr>vx = 0, vy = - 8, vz = 0\<rparr>, pos := zero3, carrying := Some ''q''\<rparr>]
       [farQuaffle\<lparr>owner := Some ''p1''\<rparr>, nearSnitch]"
    using pk
    by (simp add: onPlayerInput_def exWorld_def flight_nearP interactStep_def Let_def)
       (simp add: nearP_def exPlayer_def idle_def farQuaffle_def exBall_def)
  show ?thesis using d unfolding w
    by (simp add: exWorld_def nearP_def exPlayer_def farQuaffle_def nearSnitch_def exBall_def)
qed

text \<open>
  C4, amended.  When a player who carries nothing and is not stunned sends an interact
  intent, the ball claimed is the first ball in registry order that has no owner, is a
  quaffle or a snitch and lies within the pickup radius of the player's new position,
  whatever the distances of the balls after it: that ball's owner becomes the player, the
  player's carrying reference becomes that ball's id, and no other ball changes owner.
  The same holds of \<^verbatim>\<open>handlePlayerInteract\<close> in \<^verbatim>\<open>index.ts\<close>.
\<close>

theorem pickup_first_in_registry_order:
  assumes "find (\<lambda>q. pid q = i) (players w) = Some p"
    and "\<not> nowMs < stunnedUntil p"
    and "interact inp"
    and "\<not> truthy (carrying p)"
    and "balls w = pre @ b # post"
    and "\<forall>x\<in>set pre. \<not> pickable (flight inp dt p) x"
    and "pickable (flight inp dt p) b"
    and "find (\<lambda>q. qid q = j) (quidditchPlayers s) = Some r"
    and "\<not> now' < qstunnedUntil r"
    and "carryingBall r = None"
    and "ballEntities s = pre' @ b' # post'"
    and "\<forall>x\<in>set pre'. \<not> pickable_i r x"
    and "pickable_i r b'"
  shows "(\<exists>p'. find (\<lambda>q. pid q = i) (players (onPlayerInput i inp dt nowMs w)) = Some p' \<and>
            carrying p' = Some (bid b)) \<and>
         map owner (balls (onPlayerInput i inp dt nowMs w)) =
           map owner pre @ Some i # map owner post \<and>
         map bid (balls (onPlayerInput i inp dt nowMs w)) = map bid (balls w) \<and>
         ballEntities (handlePlayerInteract j now' s) = pre' @ b'\<lparr>eowner := Some j\<rparr> # post'"
proof -
  have srv: "ballEntities (handlePlayerInteract j now' s) = pre' @ b'\<lparr>eowner := Some j\<rparr> # post'"
    using assms(8-13) by (rule handlePlayerInteract_first)
  let ?p1 = "flight inp dt p"
  have i: "pid p = i" using assms(1) by (rule find_pid)
  have nc: "\<not> truthy (carrying ?p1)" using assms(4) by simp
  have fnd: "find (pickable ?p1) (balls w) = Some b"
    using assms(5-7) by (simp add: find_first)
  have upd: "updFirst (pickable ?p1) (\<lambda>x. x\<lparr>owner := Some (pid ?p1)\<rparr>) (balls w)
               = pre @ b\<lparr>owner := Some i\<rparr> # post"
    using assms(5-7) i by (simp add: updFirst_first)
  have step: "interactStep inp ?p1 (balls w) =
                (?p1\<lparr>carrying := Some (bid b)\<rparr>, pre @ b\<lparr>owner := Some i\<rparr> # post)"
    using nc fnd upd by (simp add: interactStep_def)
  have pl: "find (\<lambda>q. pid q = i) (players (onPlayerInput i inp dt nowMs w)) =
              Some (?p1\<lparr>carrying := Some (bid b)\<rparr>)"
    using onPlayerInput_player [OF assms(1,2), of inp dt] assms(3) step by simp
  have bl: "balls (onPlayerInput i inp dt nowMs w) =
              (if beaterSwing inp
               then swing (?p1\<lparr>carrying := Some (bid b)\<rparr>) (pre @ b\<lparr>owner := Some i\<rparr> # post)
               else pre @ b\<lparr>owner := Some i\<rparr> # post)"
    using assms(1-3) step by (simp add: onPlayerInput_def Let_def)
  show ?thesis using pl bl assms(5) srv by (simp add: swing_owner swing_bid)
qed

theorem pickup_first_in_registry_order_witness:
  "find (\<lambda>q. pid q = ''p1'') (players (exWorld [nearP] [farQuaffle, nearSnitch])) = Some nearP \<and>
   \<not> (0::real) < stunnedUntil nearP \<and> interact (idle\<lparr>interact := True\<rparr>) \<and>
   \<not> truthy (carrying nearP) \<and>
   balls (exWorld [nearP] [farQuaffle, nearSnitch]) = [] @ farQuaffle # [nearSnitch] \<and>
   pickable (flight (idle\<lparr>interact := True\<rparr>) (1/2) nearP) farQuaffle \<and>
   find (\<lambda>q. qid q = ''p1'')
     (quidditchPlayers (exServer [exQPlayer zero3 0 None] [farQuaffle_i, nearSnitch_i]))
     = Some (exQPlayer zero3 0 None) \<and>
   \<not> (0::real) < qstunnedUntil (exQPlayer zero3 0 None) \<and>
   carryingBall (exQPlayer zero3 0 None) = None \<and>
   ballEntities (exServer [exQPlayer zero3 0 None] [farQuaffle_i, nearSnitch_i])
     = [] @ farQuaffle_i # [nearSnitch_i] \<and>
   pickable_i (exQPlayer zero3 0 None) farQuaffle_i \<and>
   map owner (balls (onPlayerInput ''p1'' (idle\<lparr>interact := True\<rparr>) (1/2) 0
       (exWorld [nearP] [farQuaffle, nearSnitch]))) = [Some ''p1'', None] \<and>
   map eowner (ballEntities (handlePlayerInteract ''p1'' 0
       (exServer [exQPlayer zero3 0 None] [farQuaffle_i, nearSnitch_i]))) = [Some ''p1'', None]"
proof -
  have 1: "find (\<lambda>q. pid q = ''p1'') (players (exWorld [nearP] [farQuaffle, nearSnitch]))
             = Some nearP"
    by (simp add: exWorld_def nearP_def exPlayer_def)
  have 2: "\<not> (0::real) < stunnedUntil nearP" by (simp add: nearP_def exPlayer_def)
  have 3: "interact (idle\<lparr>interact := True\<rparr>)" by simp
  have 4: "\<not> truthy (carrying nearP)" by (simp add: nearP_def exPlayer_def)
  have 5: "balls (exWorld [nearP] [farQuaffle, nearSnitch]) = [] @ farQuaffle # [nearSnitch]"
    by (simp add: exWorld_def)
  have 6: "\<forall>x\<in>set []. \<not> pickable (flight (idle\<lparr>interact := True\<rparr>) (1/2) nearP) x" by simp
  have 7: "pickable (flight (idle\<lparr>interact := True\<rparr>) (1/2) nearP) farQuaffle"
    unfolding flight_nearP
    by (simp add: pickable_def farQuaffle_def exBall_def zero3_def dist3_def hypot3_less_iff
        power2_eq_square)
  have 8: "find (\<lambda>q. qid q = ''p1'')
      (quidditchPlayers (exServer [exQPlayer zero3 0 None] [farQuaffle_i, nearSnitch_i]))
      = Some (exQPlayer zero3 0 None)"
    by (simp add: exServer_def exQPlayer_def)
  have 9: "\<not> (0::real) < qstunnedUntil (exQPlayer zero3 0 None)" by (simp add: exQPlayer_def)
  have 10: "carryingBall (exQPlayer zero3 0 None) = None" by (simp add: exQPlayer_def)
  have 11: "ballEntities (exServer [exQPlayer zero3 0 None] [farQuaffle_i, nearSnitch_i])
      = [] @ farQuaffle_i # [nearSnitch_i]"
    by (simp add: exServer_def)
  have 12: "\<forall>x\<in>set []. \<not> pickable_i (exQPlayer zero3 0 None) x" by simp
  have 13: "pickable_i (exQPlayer zero3 0 None) farQuaffle_i"
    by (simp add: pickable_i_def farQuaffle_i_def exBallEntity_def exQPlayer_def zero3_def
        distance_def hypot3_less_iff power2_eq_square)
  show ?thesis
    using 1 2 3 4 5 7 8 9 10 11 13
      pickup_first_in_registry_order [OF 1 2 3 4 5 6 7 8 9 10 11 12 13]
    by (simp add: nearSnitch_def exBall_def nearSnitch_i_def exBallEntity_def)
qed

subsection \<open>Snitch capture\<close>

text \<open>
  C1 at a failing input: a player who picked up the snitch stays within reach of it (the
  tick does not move a carried ball).  The capture is announced as the end of the match,
  but \<^verbatim>\<open>endRound\<close> only prints the scoreboard and nothing records that the match is
  over: the next tick credits the capture award again.
\<close>

theorem snitch_award_twice_example:
  "map score (teams snitchWorld) = [0, 0] \<and>
   map score (teams (tick (1/60) 0 snitchWorld)) = [150, 0] \<and>
   map score (teams (tick (1/60) 0 (tick (1/60) 0 snitchWorld))) = [300, 0]"
proof -
  have a: "snitchWorld = snitchWorld\<lparr>teams := exTeams\<rparr>"
    by (simp add: snitchWorld_def exWorld_def)
  have 1: "tick (1/60) 0 snitchWorld = snitchWorld\<lparr>teams := addScore ''gry'' SCORE_SNITCH exTeams\<rparr>"
    by (subst a, subst tick_snitchWorld) (simp_all add: teamById_def exTeams_def)
  have 2: "tick (1/60) 0 (tick (1/60) 0 snitchWorld) =
        snitchWorld\<lparr>teams := addScore ''gry'' SCORE_SNITCH (addScore ''gry'' SCORE_SNITCH exTeams)\<rparr>"
    unfolding 1 by (subst tick_snitchWorld) (simp_all add: teamById_def exTeams_def addScore_def)
  show ?thesis
    by (subst 2, subst 1)
       (simp add: snitchWorld_def exWorld_def exTeams_def addScore_def SCORE_SNITCH_def)
qed

text \<open>
  Within one resolver pass the capture award is credited at most once: the scan stops at
  the first player in registry order within the capture radius, that player's team (if
  it exists) gains \<open>SCORE_SNITCH\<close> once, and nothing else changes.  For every world the
  capture step leaves players and balls as they are and raises the sum of the team scores
  by 0 or by \<open>SCORE_SNITCH\<close>.
\<close>

theorem snitch_award_once_per_pass:
  assumes "find (\<lambda>b. kind b = Snitch) (balls w) = Some s"
    and "players w = pre @ p # post"
    and "\<forall>q\<in>set pre. \<not> dist3 (bpos s) (pos q) < 1.5"
    and "dist3 (bpos s) (pos p) < 1.5"
  shows "snitchCapture w = w\<lparr>teams := addScore (teamId p) SCORE_SNITCH (teams w)\<rparr> \<and>
         sum_list (map score (teams (snitchCapture w))) =
           sum_list (map score (teams w)) +
             (if teamById (teams w) (teamId p) = None then 0 else SCORE_SNITCH) \<and>
         (\<forall>w'. players (snitchCapture w') = players w' \<and> balls (snitchCapture w') = balls w' \<and>
            (sum_list (map score (teams (snitchCapture w'))) = sum_list (map score (teams w')) \<or>
             sum_list (map score (teams (snitchCapture w'))) =
               sum_list (map score (teams w')) + SCORE_SNITCH))"
proof -
  have 1: "snitchCapture w = w\<lparr>teams := addScore (teamId p) SCORE_SNITCH (teams w)\<rparr>"
    using assms by (simp add: snitchCapture_def snitchLoop_first)
  have 2: "\<forall>w'. players (snitchCapture w') = players w' \<and> balls (snitchCapture w') = balls w' \<and>
            (sum_list (map score (teams (snitchCapture w'))) = sum_list (map score (teams w')) \<or>
             sum_list (map score (teams (snitchCapture w'))) =
               sum_list (map score (teams w')) + SCORE_SNITCH)"
    using snitchLoop_total by (auto simp: snitchCapture_def split: option.splits)
  show ?thesis using 2 unfolding 1 by (simp add: sum_score_addScore)
qed

theorem snitch_award_once_per_pass_witness:
  "find (\<lambda>b. kind b = Snitch) (balls snitchWorld) = Some (exBall ''s'' Snitch hover (Some ''p1'')) \<and>
   players snitchWorld = [] @ exPlayer hover 0 (Some ''s'') # [] \<and>
   dist3 (bpos (exBall ''s'' Snitch hover (Some ''p1''))) (pos (exPlayer hover 0 (Some ''s''))) < 1.5 \<and>
   map score (teams (snitchCapture snitchWorld)) = [150, 0]"
proof -
  have 1: "find (\<lambda>b. kind b = Snitch) (balls snitchWorld) = Some (exBall ''s'' Snitch hover (Some ''p1''))"
    by (simp add: snitchWorld_def exWorld_def exBall_def)
  have 2: "players snitchWorld = [] @ exPlayer hover 0 (Some ''s'') # []"
    by (simp add: snitchWorld_def exWorld_def)
  have 3: "\<forall>q\<in>set []. \<not> dist3 (bpos (exBall ''s'' Snitch hover (Some ''p1''))) (pos q) < 1.5"
    by simp
  have 4: "dist3 (bpos (exBall ''s'' Snitch hover (Some ''p1''))) (pos (exPlayer hover 0 (Some ''s''))) < 1.5"
    by (simp add: exBall_def exPlayer_def dist3_def hypot3_def)
  show ?thesis
    using 1 2 4 snitch_award_once_per_pass [OF 1 2 3 4]
    by (simp add: snitchWorld_def exWorld_def exTeams_def exPlayer_def addScore_def SCORE_SNITCH_def)
qed

subsection \<open>Bludger knockback\<close>

text \<open>
  C3 at a failing input: a bludger is at distance 1 from a player.  The resolver pass at
  \<open>nowMs = 1000\<close> knocks the player back and stuns the player until 1800.  The bludger
  loop of \<^verbatim>\<open>resolveInteractions\<close> in \<^verbatim>\<open>game.ts\<close> has no stun check: the pass at
  \<open>nowMs = 1016\<close>, with the player stunned and the bludger still in reach, applies the
  knockback again and starts a new stun window until 1816.
\<close>

theorem stunned_player_knocked_example:
  "resolveInteractions 1000 (bludgerWorld (exPlayer hover 0 None)) =
     bludgerWorld ((exPlayer hover 1800 None)\<lparr>vel := \<lparr>vx = - 28, vy = 6, vz = 0\<rparr>\<rparr>) \<and>
   (1016 :: real) < 1800 \<and>
   resolveInteractions 1016
       (bludgerWorld ((exPlayer hover 1800 None)\<lparr>vel := \<lparr>vx = - 28, vy = 6, vz = 0\<rparr>\<rparr>)) =
     bludgerWorld ((exPlayer hover 1816 None)\<lparr>vel := \<lparr>vx = - 56, vy = 12, vz = 0\<rparr>\<rparr>)"
  by (simp add: bludgerWorld_def exWorld_def exPlayer_def exBall_def hover_def zero3_def
      resolveInteractions_def goalScoring_def scorePlayer_def bludgerKnock_def upt_rec
      knock_def Let_def dist3_def hypot3_less_iff power2_eq_square norm3_def sub_def lenOr1_def
      len_def hypot3_def Physics_def snitchCapture_def)

subsection \<open>Ownership symmetry\<close>

text \<open>
  C2 at a failing input: \<^verbatim>\<open>onPlayerLeave\<close> of \<^verbatim>\<open>game.ts\<close> deletes the player and leaves
  the carried ball's owner reference as it is.  When the same id joins again, the ball's
  owner is that player while the player carries nothing.
\<close>

theorem leave_keeps_owner_example:
  "map pid (players carrierWorld) = [''p1''] \<and>
   map carrying (players carrierWorld) = [Some ''q''] \<and>
   map owner (balls carrierWorld) = [Some ''p1''] \<and>
   players (onPlayerLeave ''p1'' carrierWorld) = [] \<and>
   map owner (balls (onPlayerLeave ''p1'' carrierWorld)) = [Some ''p1''] \<and>
   map_option (\<lambda>w. (map pid (players w), map carrying (players w), map bid (balls w),
                     map owner (balls w)))
     (onPlayerJoin ''p1'' ''Ann'' (onPlayerLeave ''p1'' carrierWorld)) =
       Some ([''p1''], [None], [''q''], [Some ''p1''])"
  by (simp add: carrierWorld_def exWorld_def exPlayer_def exBall_def onPlayerLeave_def
      onPlayerJoin_def autoAssignTeam_def countTeams_def exTeams_def playersSet_def)

subsection \<open>Carried balls\<close>

text \<open>
  C6, as the claim states it, fails: in two worlds that differ only in where the carried
  quaffle is, the owner's position is the same before and after the tick, and the ball's
  position after the tick differs.  The ball's position is not a function of its owner's.
\<close>

theorem carried_ball_not_tracking_example:
  "map pos (players (tick (1/60) 0 carrierWorld)) = [hover] \<and>
   map pos (players (tick (1/60) 0 carrierWorld2)) = [hover] \<and>
   map owner (balls (tick (1/60) 0 carrierWorld)) = [Some ''p1''] \<and>
   map owner (balls (tick (1/60) 0 carrierWorld2)) = [Some ''p1''] \<and>
   map bpos (balls (tick (1/60) 0 carrierWorld)) = [\<lparr>vx = 0, vy = 60, vz = 0\<rparr>] \<and>
   map bpos (balls (tick (1/60) 0 carrierWorld2)) = [\<lparr>vx = 5, vy = 60, vz = 0\<rparr>]"
  unfolding carrierWorld_def carrierWorld2_def tick_carrier
  by (simp add: exWorld_def exPlayer_def exBall_def hover_def)

text \<open>
  C6, amended.  A ball that has an owner undergoes no independent physics.  In \<^verbatim>\<open>game.ts\<close>
  the tick does not move it: after the tick it is the very same ball (position, velocity
  and owner), unless the resolver released it (goal reset or forced drop), in which case
  it has no owner.  In \<^verbatim>\<open>index.ts\<close> the ball's update puts it two units above its owner's
  position and changes nothing else.
\<close>

theorem owned_ball_untouched_by_tick:
  assumes "k < length (balls w)" and "truthy (owner (balls w ! k))"
    and "eowner e = Some ow" and "find (\<lambda>q. qid q = ow) qs = Some r"
  shows "length (balls (tick dt nowMs w)) = length (balls w) \<and>
         (balls (tick dt nowMs w) ! k = balls w ! k \<or> owner (balls (tick dt nowMs w) ! k) = None) \<and>
         updateBall qs dt t e =
           e\<lparr>eposition := \<lparr>vx = vx (position r), vy = vy (position r) + 2, vz = vz (position r)\<rparr>\<rparr>"
proof -
  let ?w1 = "w\<lparr>balls := map (tickBall (players w) dt nowMs) (balls w)\<rparr>"
  have b: "balls (tick dt nowMs w) = balls (resolveInteractions nowMs ?w1)"
    by (simp add: tick_def Let_def)
  have r: "list_all2 released (balls ?w1) (balls (tick dt nowMs w))"
    unfolding b by (rule released_resolveInteractions)
  have l: "length (balls (tick dt nowMs w)) = length (balls w)"
    using list_all2_lengthD [OF r] by simp
  have "released (balls ?w1 ! k) (balls (tick dt nowMs w) ! k)"
    using r assms(1) by (simp add: list_all2_conv_all_nth)
  moreover have "balls ?w1 ! k = balls w ! k"
    using assms(1,2) by (simp add: tickBall_owned)
  ultimately show ?thesis using l updateBall_carried [OF assms(3,4)] by (simp add: released_def)
qed

theorem owned_ball_untouched_by_tick_witness:
  "(0::nat) < length (balls carrierWorld2) \<and> truthy (owner (balls carrierWorld2 ! 0)) \<and>
   eowner (exBallEntity Quaffle zero3 (Some ''p1'')) = Some ''p1'' \<and>
   find (\<lambda>q. qid q = ''p1'') [exQPlayer hover 0 (Some 0)] = Some (exQPlayer hover 0 (Some 0)) \<and>
   balls (tick (1/60) 0 carrierWorld2) ! 0 = balls carrierWorld2 ! 0 \<and>
   eposition (updateBall [exQPlayer hover 0 (Some 0)] (1/60) 0
                (exBallEntity Quaffle zero3 (Some ''p1''))) = \<lparr>vx = 0, vy = 62, vz = 0\<rparr>"
proof -
  have 1: "(0::nat) < length (balls carrierWorld2)" by (simp add: carrierWorld2_def exWorld_def)
  have 2: "truthy (owner (balls carrierWorld2 ! 0))"
    by (simp add: carrierWorld2_def exWorld_def exBall_def)
  have 3: "eowner (exBallEntity Quaffle zero3 (Some ''p1'')) = Some ''p1''"
    by (simp add: exBallEntity_def)
  have 4: "find (\<lambda>q. qid q = ''p1'') [exQPlayer hover 0 (Some 0)] = Some (exQPlayer hover 0 (Some 0))"
    by (simp add: exQPlayer_def)
  have n: "owner (balls (tick (1/60) 0 carrierWorld2) ! 0) \<noteq> None"
    unfolding carrierWorld2_def tick_carrier by (simp add: exWorld_def exBall_def)
  note inst = owned_ball_untouched_by_tick [OF 1 2 3 4, of "1/60" 0 0]
  have d: "balls (tick (1/60) 0 carrierWorld2) ! 0 = balls carrierWorld2 ! 0 \<or>
           owner (balls (tick (1/60) 0 carrierWorld2) ! 0) = None"
    by (rule conjunct1 [OF conjunct2 [OF inst]])
  have 5: "balls (tick (1/60) 0 carrierWorld2) ! 0 = balls carrierWorld2 ! 0"
  proof (rule disjE [OF d])
    assume "owner (balls (tick (1/60) 0 carrierWorld2) ! 0) = None"
    with n show ?thesis by (rule notE)
  qed
  have 6: "eposition (updateBall [exQPlayer hover 0 (Some 0)] (1/60) 0
                (exBallEntity Quaffle zero3 (Some ''p1''))) = \<lparr>vx = 0, vy = 62, vz = 0\<rparr>"
    using inst by (simp add: exQPlayer_def hover_def)
  show ?thesis using 1 2 3 4 5 6 by simp
qed

subsection \<open>Goal scoring\<close>

text \<open>
  C7, as the claim states it, fails: a carrier inside two overlapping goal zones (centres
  2 apart, radius 2.2 each, which the arena's deduplication keeps apart) earns the team
  twice the quaffle award in one resolver pass.
\<close>

theorem overlapping_goals_example:
  "dist3 (center (hoop 0)) (center (hoop 2)) = 2 \<and>
   map carrying (players (goalWorld [hoop 0, hoop 2])) = [Some ''q''] \<and>
   map score (teams (goalWorld [hoop 0, hoop 2])) = [0, 0] \<and>
   map score (teams (resolveInteractions 0 (goalWorld [hoop 0, hoop 2]))) = [2 * SCORE_QUAFFLE, 0]"
proof -
  have d: "dist3 (center (hoop 0)) (center (hoop 2)) = 2"
    by (simp add: hoop_def dist3_def hypot3_def)
  have g: "goalScoring (goalWorld [hoop 0, hoop 2]) =
      (goalWorld [hoop 0, hoop 2])
        \<lparr>players := [scorer\<lparr>carrying := None\<rparr>],
         teams := addScore ''gry'' SCORE_QUAFFLE (addScore ''gry'' SCORE_QUAFFLE exTeams),
         balls := [resetQuaffle exBounds heldQuaffle]\<rparr>"
    using scorer_in_hoop
    by (simp add: goalScoring_def goalWorld_def exWorld_def scorePlayer_def)
       (simp add: scorer_def exPlayer_def heldQuaffle_def exBall_def teamById_def exTeams_def
        addScore_def resetQuaffle_def)
  show ?thesis
    using d
    by (simp add: resolveInteractions_def g)
       (simp add: goalWorld_def exWorld_def bludgerKnock_def snitchCapture_def resetQuaffle_def
        heldQuaffle_def exBall_def scorer_def exPlayer_def exTeams_def addScore_def)
qed

text \<open>
  C7, amended.  For a player who carries a quaffle, whose team exists and who is inside
  at least one goal zone, the goal-scoring step of one resolver pass clears the player's
  carrying reference, leaves the ball without an owner at the respawn point
  \<open>midAir bounds 8\<close> with zero velocity, and raises the score of the player's team by the
  quaffle award once for every goal zone the player is inside (and once more for every
  zone another carrier of the same team is inside): exactly the award when one zone
  holds the team's only carrier.
\<close>

theorem goal_scoring_postcondition:
  assumes "players w = pre @ p # post"
    and "carrying p = Some c" and "c \<noteq> []"
    and "find (\<lambda>x. bid x = c) (balls w) = Some b" and "kind b = Quaffle"
    and "teamById (teams w) (teamId p) = Some t"
    and "g \<in> set (goals w)" and "dist3 (pos p) (center g) < radius g"
  shows "players (goalScoring w) ! length pre = p\<lparr>carrying := None\<rparr> \<and>
         find (\<lambda>x. bid x = c) (balls (goalScoring w)) =
           Some (b\<lparr>owner := None, bpos := midAir (bounds w) 8, bvel := zero3\<rparr>) \<and>
         teamById (teams (goalScoring w)) (teamId p) =
           Some (t\<lparr>score := score t + SCORE_QUAFFLE *
                   (\<Sum>q\<leftarrow>players w. if teamId q = teamId p
                                       then credit (balls w) (goals w) q else 0)\<rparr>) \<and>
         credit (balls w) (goals w) p = int (zonesInRange (goals w) p) \<and>
         1 \<le> zonesInRange (goals w) p"
proof -
  let ?f = "scorePlayer (bounds w) (goals w)"
  let ?bnd = "bounds w"
  let ?P = "\<lambda>x. Some (bid x) = carrying p"
  have Pc: "?P = (\<lambda>x. bid x = c)" using assms(2) by auto
  obtain pre' s1 where e1: "forEach ?f pre (teams w, balls w) = (pre', s1)"
    by (cases "forEach ?f pre (teams w, balls w)")
  obtain p' s2 where e2: "?f p s1 = (p', s2)" by (cases "?f p s1")
  obtain post' s3 where e3: "forEach ?f post s2 = (post', s3)" by (cases "forEach ?f post s2")
  have all: "forEach ?f (players w) (teams w, balls w) = (pre' @ p' # post', s3)"
    using e1 e2 e3 by (simp add: assms(1) forEach_append)
  have gs: "goalScoring w = w\<lparr>players := pre' @ p' # post', teams := fst s3, balls := snd s3\<rparr>"
    using all by (simp add: goalScoring_def split: prod.splits)
  have len: "length pre' = length pre" using forEach_length [of ?f pre "(teams w, balls w)"] e1 by simp
  \<comment> \<open>the state when the loop reaches \<open>p\<close>\<close>
  have r1: "sameBalls ?bnd (teams w, balls w) s1"
    using sameBalls_forEach [of ?bnd "(teams w, balls w)" "goals w" pre] e1 by simp
  have z: "1 \<le> zonesInRange (goals w) p"
  proof -
    have "g \<in> set (filter (\<lambda>g. dist3 (pos p) (center g) < radius g) (goals w))"
      using assms(7,8) by simp
    then have "0 < length (filter (\<lambda>g. dist3 (pos p) (center g) < radius g) (goals w))"
      by (metis length_pos_if_in_set)
    then show ?thesis unfolding zonesInRange_def by linarith
  qed
  have cq0: "carriesQuaffle (balls w) p"
    using assms(2-5) by (simp add: carriesQuaffle_def Pc)
  have cq1: "carriesQuaffle (snd s1) p"
    using r1 cq0 carriesQuaffle_resetOrSame [of ?bnd "balls w" "snd s1" p]
    by (simp add: sameBalls_def)
  have t1: "teamById (fst s1) (teamId p) \<noteq> None"
    using r1 assms(6) teamById_tid [of "fst s1" "teams w" "teamId p"] by (simp add: sameBalls_def)
  have step: "?f p s1 =
      (p\<lparr>carrying := None\<rparr>,
       addScore (teamId p) (SCORE_QUAFFLE * int (zonesInRange (goals w) p)) (fst s1),
       updFirst ?P (resetQuaffle ?bnd) (snd s1))"
    using cq1 t1 z scorePlayer_closed [of ?bnd "goals w" p "fst s1" "snd s1"] by simp
  have p': "p' = p\<lparr>carrying := None\<rparr>" using step e2 by simp
  have b2: "snd s2 = updFirst (\<lambda>x. bid x = c) (resetQuaffle ?bnd) (snd s1)"
    using step e2 by (simp add: Pc)
  \<comment> \<open>the carried ball\<close>
  obtain b1 where f1: "find (\<lambda>x. bid x = c) (snd s1) = Some b1" and q1: "resetOrSame ?bnd b b1"
    using find_resetOrSame [of ?bnd "balls w" "snd s1" "\<lambda>i k. i = c" b] r1 assms(4)
    by (auto simp: sameBalls_def)
  have rb: "resetQuaffle ?bnd b1 = resetQuaffle ?bnd b"
    using q1 by (auto simp: resetOrSame_def resetQuaffle_idem)
  have "bid b1 = c" using f1 by (induction "snd s1") (auto dest: find_Some_iff [THEN iffD1])
  then have f2: "find (\<lambda>x. bid x = c) (snd s2) = Some (resetQuaffle ?bnd b)"
    unfolding b2 using find_updFirst_same [OF f1, of "resetQuaffle ?bnd"] rb
    by (simp add: resetQuaffle_def)
  have r3: "sameBalls ?bnd s2 s3"
    using sameBalls_forEach [of ?bnd s2 "goals w" post] e3 by simp
  obtain b3 where f3: "find (\<lambda>x. bid x = c) (snd s3) = Some b3"
      and q3: "resetOrSame ?bnd (resetQuaffle ?bnd b) b3"
    using find_resetOrSame [of ?bnd "snd s2" "snd s3" "\<lambda>i k. i = c" "resetQuaffle ?bnd b"] r3 f2
    by (auto simp: sameBalls_def)
  have "b3 = resetQuaffle ?bnd b" using q3 by (auto simp: resetOrSame_def resetQuaffle_idem)
  then have ball: "find (\<lambda>x. bid x = c) (balls (goalScoring w)) =
           Some (b\<lparr>owner := None, bpos := midAir (bounds w) 8, bvel := zero3\<rparr>)"
    using f3 by (simp add: gs resetQuaffle_def)
  \<comment> \<open>the teams\<close>
  have "fst s3 = fold (\<lambda>q. addScore (teamId q) (SCORE_QUAFFLE * credit (balls w) (goals w) q))
                   (players w) (teams w)"
    using forEach_scorePlayer_teams [of ?bnd "balls w" "balls w" "goals w" "players w" "teams w"]
      all by (simp add: resetOrSame_refl)
  then have team: "teamById (teams (goalScoring w)) (teamId p) =
           Some (t\<lparr>score := score t + SCORE_QUAFFLE *
                   (\<Sum>q\<leftarrow>players w. if teamId q = teamId p
                                       then credit (balls w) (goals w) q else 0)\<rparr>)"
    using assms(6)
    by (simp add: gs teamById_fold_addScore sum_list_const_mult [symmetric] if_distrib
        cong: if_cong)
  have pl: "players (goalScoring w) ! length pre = p\<lparr>carrying := None\<rparr>"
    unfolding gs p' len [symmetric] by simp
  show ?thesis
    using pl ball team z cq0 by (simp add: credit_def)
qed

theorem goal_scoring_postcondition_witness:
  "players (goalWorld [hoop 0]) = [] @ scorer # [] \<and>
   carrying scorer = Some ''q'' \<and> ''q'' \<noteq> [] \<and>
   find (\<lambda>x. bid x = ''q'') (balls (goalWorld [hoop 0])) = Some heldQuaffle \<and>
   kind heldQuaffle = Quaffle \<and>
   teamById (teams (goalWorld [hoop 0])) (teamId scorer) = Some (hd exTeams) \<and>
   hoop 0 \<in> set (goals (goalWorld [hoop 0])) \<and>
   dist3 (pos scorer) (center (hoop 0)) < radius (hoop 0) \<and>
   players (goalScoring (goalWorld [hoop 0])) ! 0 = scorer\<lparr>carrying := None\<rparr> \<and>
   find (\<lambda>x. bid x = ''q'') (balls (goalScoring (goalWorld [hoop 0]))) =
     Some (heldQuaffle\<lparr>owner := None, bpos := \<lparr>vx = 0, vy = 68, vz = 0\<rparr>, bvel := zero3\<rparr>) \<and>
   teamById (teams (goalScoring (goalWorld [hoop 0]))) ''gry'' =
     Some ((hd exTeams)\<lparr>score := 10\<rparr>)"
proof -
  have 1: "players (goalWorld [hoop 0]) = [] @ scorer # []"
    by (simp add: goalWorld_def exWorld_def)
  have 2: "carrying scorer = Some ''q''" by (simp add: scorer_def exPlayer_def)
  have 3: "''q'' \<noteq> []" by simp
  have 4: "find (\<lambda>x. bid x = ''q'') (balls (goalWorld [hoop 0])) = Some heldQuaffle"
    by (simp add: goalWorld_def exWorld_def heldQuaffle_def exBall_def)
  have 5: "kind heldQuaffle = Quaffle" by (simp add: heldQuaffle_def exBall_def)
  have 6: "teamById (teams (goalWorld [hoop 0])) (teamId scorer) = Some (hd exTeams)"
    by (simp add: goalWorld_def exWorld_def teamById_def exTeams_def scorer_def exPlayer_def)
  have 7: "hoop 0 \<in> set (goals (goalWorld [hoop 0]))" by (simp add: goalWorld_def)
  have 8: "dist3 (pos scorer) (center (hoop 0)) < radius (hoop 0)" by (rule scorer_in_hoop)
  have c: "credit (balls (goalWorld [hoop 0])) (goals (goalWorld [hoop 0])) scorer = 1"
    using 8
    by (simp add: credit_def carriesQuaffle_def zonesInRange_def goalWorld_def exWorld_def)
       (simp add: scorer_def exPlayer_def heldQuaffle_def exBall_def)
  have m: "midAir (bounds (goalWorld [hoop 0])) 8 = \<lparr>vx = 0, vy = 68, vz = 0\<rparr>"
    by (simp add: midAir_def goalWorld_def exWorld_def exBounds_def)
  have t: "teamId scorer = ''gry''" by (simp add: scorer_def exPlayer_def)
  show ?thesis
    using 1 2 4 5 6 7 8 goal_scoring_postcondition [OF 1 2 3 4 5 6 7 8]
    by (simp add: c m t) (simp add: goalWorld_def exWorld_def exTeams_def SCORE_QUAFFLE_def)
qed

subsection \<open>Team assignment\<close>

text \<open>
  C8.  \<^verbatim>\<open>autoAssignTeam\<close> returns the first team of the configured list whose player
  count is minimal: every team before it has strictly more players, every team after it
  at least as many.  Consequently, with at least one team, distinct team ids and every
  team at count 0, any run of \<open>N\<close> consecutive joins succeeds and leaves no team with
  more than \<open>\<lceil>N / teamCount\<rceil>\<close> players (a join under an id that is already present
  replaces that player and is counted as a join).
\<close>

theorem auto_assign_fair:
  assumes "teams w \<noteq> []" and "distinct (map tid (teams w))"
    and "\<forall>t\<in>set (teams w). teamCount (tid t) (players w) = 0"
  shows "(\<forall>ps. \<exists>pre t post. teams w = pre @ t # post \<and> autoAssignTeam (teams w) ps = Some t \<and>
            (\<forall>u\<in>set pre. teamCount (tid t) ps < teamCount (tid u) ps) \<and>
            (\<forall>u\<in>set post. teamCount (tid t) ps \<le> teamCount (tid u) ps)) \<and>
         (\<exists>w'. joinAll js w = Some w' \<and> teams w' = teams w \<and>
            (\<forall>t\<in>set (teams w).
               int (teamCount (tid t) (players w')) \<le>
                 \<lceil>real (length js) / real (length (teams w))\<rceil>))"
proof -
  have f0: "fairAfter 0 w"
    using assms(1,3) by (simp add: fairAfter_def)
  obtain w' where j: "joinAll js w = Some w'" "teams w' = teams w" "fairAfter (length js) w'"
    using joinAll_fair [OF assms(1,2) f0, of js] by auto
  have "int (teamCount (tid t) (players w')) \<le> \<lceil>real (length js) / real (length (teams w))\<rceil>"
    if "t \<in> set (teams w)" for t
    using j(2,3) that assms(1) by (intro ceiling_bound) (simp_all add: fairAfter_def)
  then show ?thesis
    using j autoAssignTeam_first_min [OF assms(1)] by blast
qed

theorem auto_assign_fair_witness:
  "teams (exWorld [] []) \<noteq> [] \<and> distinct (map tid (teams (exWorld [] []))) \<and>
   map (\<lambda>t. teamCount (tid t) (players (exWorld [] []))) (teams (exWorld [] [])) = [0, 0] \<and>
   map_option (\<lambda>w. map teamId (players w)) (joinAll threeJoins (exWorld [] [])) =
     Some [''gry'', ''sly'', ''gry''] \<and>
   (\<exists>w'. joinAll threeJoins (exWorld [] []) = Some w' \<and>
      int (teamCount ''gry'' (players w')) \<le> 2 \<and> int (teamCount ''sly'' (players w')) \<le> 2)"
proof -
  have 1: "teams (exWorld [] []) \<noteq> []" by (simp add: exWorld_def exTeams_def)
  have 2: "distinct (map tid (teams (exWorld [] [])))" by (simp add: exWorld_def exTeams_def)
  have 3: "\<forall>t\<in>set (teams (exWorld [] [])). teamCount (tid t) (players (exWorld [] [])) = 0"
    by (simp add: exWorld_def teamCount_def)
  have c: "\<lceil>real (length threeJoins) / real (length (teams (exWorld [] [])))\<rceil> = 2"
    by (simp add: threeJoins_def exWorld_def exTeams_def ceiling_eq_iff)
  have 4: "map (\<lambda>t. teamCount (tid t) (players (exWorld [] []))) (teams (exWorld [] [])) = [0, 0]"
    by (simp add: exWorld_def exTeams_def teamCount_def)
  have "\<exists>w'. joinAll threeJoins (exWorld [] []) = Some w' \<and>
      int (teamCount ''gry'' (players w')) \<le> 2 \<and> int (teamCount ''sly'' (players w')) \<le> 2"
    using conjunct2 [OF auto_assign_fair [OF 1 2 3, of threeJoins]] unfolding c
    by (auto simp: exWorld_def exTeams_def)
  then show ?thesis using 1 2 4 joinAll_threeJoins by simp
qed

end
